theory Spec2Isabelle
  imports Complex_Main "HOL-Library.Multiset" "HOL-Library.Log_Nat" "HOL-Library.Product_Lexorder"
begin

chapter \<open>Prepwise client: presence, chat, notifications and the quiz session\<close>

text \<open>
  A shallow embedding of the client-side synchronisation code of the repository:
  \<^item> \<^verbatim>\<open>PresenceRoster.tsx\<close>: \<^verbatim>\<open>sortRoster\<close>;
  \<^item> \<^verbatim>\<open>ChatWidget.tsx\<close>: \<^verbatim>\<open>loadMessages\<close>, \<^verbatim>\<open>messagesForRender\<close>, the message input's
    \<^verbatim>\<open>onFocus\<close> handler;
  \<^item> \<^verbatim>\<open>NotificationsPage.tsx\<close> and the header banner: the read ledger and the unread count;
  \<^item> the quiz view (\<^verbatim>\<open>FlashcardView\<close> with study modes): its React state, its effects and
    its event handlers.

  React state is a record; an event handler or a timer callback is a function from the
  state it sees to the state after its \<^verbatim>\<open>setState\<close> calls; an effect is split into the
  condition under which it is installed and the body it runs. Browser storage is an explicit
  map. Time stamps are epoch milliseconds (the value of \<^verbatim>\<open>Date.now()\<close> or of
  \<^verbatim>\<open>new Date(s).getTime()\<close>), passed in as \<open>int\<close>.
\<close>

section \<open>JavaScript built-ins used by the code\<close>

subsection \<open>\<^verbatim>\<open>Array.prototype.sort\<close> with a comparator\<close>

text \<open>
  ECMAScript requires \<^verbatim>\<open>sort\<close> to be stable. For a consistent comparator the result is
  therefore determined: the stable arrangement, which insertion from the right computes.
  An element \<open>x\<close> is put before the first \<open>y\<close> with \<open>cmp x y \<le> 0\<close>, so that elements the
  comparator cannot tell apart keep their input order.
\<close>

fun insert_sorted :: "('a \<Rightarrow> 'a \<Rightarrow> int) \<Rightarrow> 'a \<Rightarrow> 'a list \<Rightarrow> 'a list" where
  "insert_sorted cmp x [] = [x]"
| "insert_sorted cmp x (y # ys) =
     (if cmp x y \<le> 0 then x # y # ys else y # insert_sorted cmp x ys)"

definition array_sort :: "('a \<Rightarrow> 'a \<Rightarrow> int) \<Rightarrow> 'a list \<Rightarrow> 'a list" where
  "array_sort cmp xs = foldr (insert_sorted cmp) xs []"

subsection \<open>\<^verbatim>\<open>Map\<close>: keys in insertion order\<close>



subsection \<open>\<^verbatim>\<open>String.prototype.includes\<close>\<close>

fun startsWith :: "string \<Rightarrow> string \<Rightarrow> bool" where
  "startsWith s [] = True"
| "startsWith [] (c # cs) = False"
| "startsWith (x # xs) (c # cs) = (x = c \<and> startsWith xs cs)"

fun str_includes :: "string \<Rightarrow> string \<Rightarrow> bool" where
  "str_includes [] sub = startsWith [] sub"
| "str_includes (x # xs) sub = (startsWith (x # xs) sub \<or> str_includes xs sub)"

subsection \<open>Numbers: binary64 division, multiplication and \<^verbatim>\<open>Math.round\<close>\<close>

text \<open>
  A JavaScript number is an IEEE 754 binary64 value. The score computation divides two
  array counts and multiplies by 100, so only positive finite values far from overflow and
  underflow occur; they are modelled as the rationals they denote. \<open>binary64\<close> rounds a
  non-negative rational to the nearest value with a 53-bit significand, ties to even;
  \<^verbatim>\<open>Math.round\<close> rounds to the nearest integer, ties towards \<open>+\<infinity>\<close>.
\<close>

definition pow2 :: "int \<Rightarrow> rat" where
  "pow2 e = (if 0 \<le> e then 2 ^ nat e else 1 / 2 ^ nat (- e))"

definition ilog2 :: "rat \<Rightarrow> int" where
  "ilog2 x =
     (let (a, b) = quotient_of x; d = bitlen a - bitlen b
      in if pow2 d \<le> x then d else d - 1)"

definition roundTiesToEven :: "rat \<Rightarrow> int" where
  "roundTiesToEven y =
     (let f = \<lfloor>y\<rfloor>; r = y - of_int f
      in if r < 1 / 2 then f else if 1 / 2 < r then f + 1 else if even f then f else f + 1)"

definition binary64 :: "rat \<Rightarrow> rat" where
  "binary64 x =
     (if x \<le> 0 then 0
      else let e = ilog2 x - 52 in of_int (roundTiesToEven (x / pow2 e)) * pow2 e)"

definition js_div :: "rat \<Rightarrow> rat \<Rightarrow> rat" where
  "js_div a b = binary64 (a / b)"

definition js_mul :: "rat \<Rightarrow> rat \<Rightarrow> rat" where
  "js_mul a b = binary64 (a * b)"

definition Math_round :: "rat \<Rightarrow> int" where
  "Math_round x = \<lfloor>x + 1 / 2\<rfloor>"

section \<open>Presence roster (\<^verbatim>\<open>PresenceRoster.tsx\<close>)\<close>

datatype UserRole = User | Admin

text \<open>
  \<open>lastSeen\<close> is \<open>None\<close> where the source's \<^verbatim>\<open>lastSeen\<close> is absent, \<^verbatim>\<open>null\<close> or empty
  (falsy), and otherwise the epoch milliseconds of the time stamp.
\<close>

record UserInfo =
  username :: string
  role :: UserRole
  online :: bool
  lastSeen :: "int option"

definition rosterCompare :: "UserInfo \<Rightarrow> UserInfo \<Rightarrow> int" where
  "rosterCompare a b =
     (if online a \<noteq> online b then (if online a then - 1 else 1)
      else let aTime = (case lastSeen a of Some t \<Rightarrow> t | None \<Rightarrow> 0);
               bTime = (case lastSeen b of Some t \<Rightarrow> t | None \<Rightarrow> 0)
           in bTime - aTime)"

definition sortRoster :: "UserInfo list \<Rightarrow> UserInfo list" where
  "sortRoster users = array_sort rosterCompare users"

text \<open>
  The order the specification names, for comparison with the comparator: online entries
  first, then the later \<open>lastSeen\<close> first, an entry without \<open>lastSeen\<close> counting as time 0.
  \<open>rosterKey\<close> is the pair the comparator's result depends on.
\<close>

definition seenTime :: "UserInfo \<Rightarrow> int" where
  "seenTime u = (case lastSeen u of Some t \<Rightarrow> t | None \<Rightarrow> 0)"

definition rosterBefore :: "UserInfo \<Rightarrow> UserInfo \<Rightarrow> bool" where
  "rosterBefore a b = ((online a \<and> \<not> online b) \<or> (online a = online b \<and> seenTime b \<le> seenTime a))"

definition rosterKey :: "UserInfo \<Rightarrow> nat \<times> int" where
  "rosterKey u = (if online u then 0 else 1, - seenTime u)"

section \<open>Chat messages and conversations (\<^verbatim>\<open>ChatWidget.tsx\<close>)\<close>

text \<open>\<open>createdAt\<close> and \<open>lastMessageAt\<close> are the epoch milliseconds of the time stamps.\<close>

record Message =
  msg_id :: string
  conversationId :: string
  sender :: "string \<times> UserRole"
  body :: string
  createdAt :: int
  readBy :: "string list"

record ConversationSummary =
  conv_id :: string
  participants :: "(string \<times> UserRole) list"
  lastMessageAt :: "int option"
  lastMessagePreview :: "string option"
  unreadCount :: int

text \<open>
  The part of the widget's state the modelled handlers touch. \<open>hasSession\<close> stands for a
  signed-in \<^verbatim>\<open>session\<close>; \<open>messagesLoadingRef\<close> is the in-flight flag of \<^verbatim>\<open>loadMessages\<close>;
  \<open>inputText\<close> is the state cell \<^verbatim>\<open>text\<close> of the message input.
\<close>

record ChatWidget =
  hasSession :: bool
  selectedId :: "string option"
  chat_messages :: "Message list"
  conversations :: "ConversationSummary list"
  messagesLoadingRef :: bool
  inputText :: string
  sending :: bool












text \<open>
  The input's \<^verbatim>\<open>onFocus\<close> handler is asynchronous:
  \<^verbatim>\<open>if (session && selectedId) { try { await chatApi.markRead(..); setConversations(..) } catch {} }\<close>.
  \<open>onFocus_request\<close> is the handler up to the \<^verbatim>\<open>await\<close>: the state it leaves and the
  conversation whose mark-read call is in flight. \<open>onFocus_settle\<close> is the continuation,
  given whether the call resolved (\<open>True\<close>) or threw (\<open>False\<close>).
\<close>

definition onFocus_request :: "ChatWidget \<Rightarrow> ChatWidget \<times> string option" where
  "onFocus_request w =
     (if hasSession w \<and> selectedId w \<noteq> None \<and> selectedId w \<noteq> Some [] then (w, selectedId w)
      else (w, None))"

definition onFocus_settle :: "string \<Rightarrow> bool \<Rightarrow> ChatWidget \<Rightarrow> ChatWidget" where
  "onFocus_settle sid resolved w =
     (if resolved
      then w\<lparr>conversations :=
               map (\<lambda>c. if conv_id c = sid then c\<lparr>unreadCount := 0\<rparr> else c) (conversations w)\<rparr>
      else w)"

definition onFocus :: "bool \<Rightarrow> ChatWidget \<Rightarrow> ChatWidget" where
  "onFocus resolved w =
     (case onFocus_request w of
        (w', None) \<Rightarrow> w'
      | (w', Some sid) \<Rightarrow> onFocus_settle sid resolved w')"

section \<open>Presence events, the read ledger and the unread count\<close>

datatype EventType = Login | Logout | Signup | CommunityPost

record PresenceEvent =
  event_id :: string
  event_username :: string
  event_role :: UserRole
  event_type :: EventType
  timestamp :: int

record Session =
  token :: string
  session_username :: string
  session_role :: UserRole

text \<open>
  \<^verbatim>\<open>localStorage\<close> holds strings. A stored ledger is read back with \<^verbatim>\<open>JSON.parse\<close>, which
  throws on text that is not JSON: an entry is either the ledger it parses to or \<open>Malformed\<close>.
\<close>

text \<open>
  The ledger is a plain object, given here by its own properties. \<^verbatim>\<open>readMap[id]\<close> finds an own
  property or else one inherited from \<^verbatim>\<open>Object.prototype\<close>; each inherited one is a function
  or an object, hence truthy. An object literal with a computed key and \<^verbatim>\<open>JSON.parse\<close> define
  own properties under any name. The assignment \<^verbatim>\<open>updated[id] = true\<close> does so too, except for
  \<^verbatim>\<open>__proto__\<close>, where it calls the inherited setter, which ignores a boolean.
\<close>

definition objectPrototypeKeys :: "string list" where
  "objectPrototypeKeys =
     [''constructor'', ''__defineGetter__'', ''__defineSetter__'', ''hasOwnProperty'',
      ''__lookupGetter__'', ''__lookupSetter__'', ''isPrototypeOf'', ''propertyIsEnumerable'',
      ''toString'', ''valueOf'', ''__proto__'', ''toLocaleString'']"

definition readsTruthy :: "(string \<rightharpoonup> bool) \<Rightarrow> string \<Rightarrow> bool" where
  "readsTruthy m k = (case m k of Some b \<Rightarrow> b | None \<Rightarrow> k \<in> set objectPrototypeKeys)"

definition assignTrue :: "(string \<rightharpoonup> bool) \<Rightarrow> string \<Rightarrow> (string \<rightharpoonup> bool)" where
  "assignTrue m k = (if k = ''__proto__'' then m else m(k \<mapsto> True))"

datatype StoredLedger = Parsed "string \<rightharpoonup> bool" | Malformed

type_synonym LocalStorage = "string \<rightharpoonup> StoredLedger"

definition storageKey :: "Session option \<Rightarrow> string option" where
  "storageKey s = (case s of None \<Rightarrow> None | Some ss \<Rightarrow> Some (''presence_read:'' @ session_username ss))"

text \<open>
  \<^verbatim>\<open>localStorage.setItem\<close> inside \<^verbatim>\<open>try { .. } catch {}\<close>: \<open>writable\<close> tells whether the call
  succeeds; a failed write is swallowed and leaves the storage as it was.
\<close>

definition persistLedger :: "bool \<Rightarrow> string option \<Rightarrow> (string \<rightharpoonup> bool) \<Rightarrow> LocalStorage \<Rightarrow> LocalStorage" where
  "persistLedger writable key m ls =
     (case key of
        None \<Rightarrow> ls
      | Some k \<Rightarrow> if writable then ls(k \<mapsto> Parsed m) else ls)"

record NotificationsPage =
  presenceEvents :: "PresenceEvent list"
  readMap :: "string \<rightharpoonup> bool"

definition compareNewestFirst :: "PresenceEvent \<Rightarrow> PresenceEvent \<Rightarrow> int" where
  "compareNewestFirst a b = timestamp b - timestamp a"

text \<open>
  \<^verbatim>\<open>loadEvents\<close>, which the page's effect defines and polls for an admin session only: sort
  newest first, keep the first 20; a failed fetch changes nothing. The buttons that call
  \<^verbatim>\<open>toggleRead\<close> and \<^verbatim>\<open>markAllRead\<close> are rendered for an admin only.
\<close>

definition loadEvents :: "PresenceEvent list option \<Rightarrow> NotificationsPage \<Rightarrow> NotificationsPage" where
  "loadEvents response p =
     (case response of
        None \<Rightarrow> p
      | Some events \<Rightarrow> p\<lparr>presenceEvents := take 20 (array_sort compareNewestFirst events)\<rparr>)"

definition toggleRead ::
  "bool \<Rightarrow> Session option \<Rightarrow> string \<Rightarrow> bool \<Rightarrow> NotificationsPage \<times> LocalStorage \<Rightarrow> NotificationsPage \<times> LocalStorage" where
  "toggleRead writable s i next' pl =
     (let p = fst pl; ls = snd pl; updated = (readMap p)(i \<mapsto> next')
      in (p\<lparr>readMap := updated\<rparr>, persistLedger writable (storageKey s) updated ls))"

definition markAllRead ::
  "bool \<Rightarrow> Session option \<Rightarrow> NotificationsPage \<times> LocalStorage \<Rightarrow> NotificationsPage \<times> LocalStorage" where
  "markAllRead writable s pl =
     (let p = fst pl; ls = snd pl;
          updated = foldl (\<lambda>m e. assignTrue m (event_id e)) Map.empty (presenceEvents p)
      in (p\<lparr>readMap := updated\<rparr>, persistLedger writable (storageKey s) updated ls))"

text \<open>
  The header banner's count,
  \<^verbatim>\<open>res.events.reduce((acc, e) => (readMap[e.id] ? acc : acc + 1), 0)\<close>:
  an event counts unless the lookup of its id in the ledger is truthy.
\<close>

definition countUnread :: "PresenceEvent list \<Rightarrow> (string \<rightharpoonup> bool) \<Rightarrow> nat" where
  "countUnread events m = foldl (\<lambda>acc e. if readsTruthy m (event_id e) then acc else acc + 1) 0 events"

text \<open>
  The banner's effect for one poll: 0 without an admin session; 0 when the fetch or the
  parse throws (the \<^verbatim>\<open>catch\<close>); otherwise the count over all fetched events against the
  ledger stored under the user's key (the empty ledger when nothing is stored).
\<close>

definition unreadPresence :: "Session option \<Rightarrow> PresenceEvent list option \<Rightarrow> LocalStorage \<Rightarrow> nat" where
  "unreadPresence s response ls =
     (case s of
        None \<Rightarrow> 0
      | Some ss \<Rightarrow>
          if session_role ss \<noteq> Admin then 0
          else case response of
                 None \<Rightarrow> 0
               | Some events \<Rightarrow>
                   (case ls (''presence_read:'' @ session_username ss) of
                      None \<Rightarrow> countUnread events Map.empty
                    | Some Malformed \<Rightarrow> 0
                    | Some (Parsed m) \<Rightarrow> countUnread events m))"

section \<open>The quiz view (\<^verbatim>\<open>FlashcardView\<close>)\<close>

subsection \<open>State\<close>

datatype StudyMode = FlashcardMode | QuizMode

datatype QuizDifficulty = Hard | Medium | Easy | Practice

record Question =
  number :: int
  question :: string
  choices :: "string list"
  correct_answer :: string

text \<open>
  The component's \<^verbatim>\<open>useState\<close> cells that the quiz logic reads or writes, with the prop
  \<open>flashcardId\<close> and the loaded questions (\<^verbatim>\<open>flashcard?.parsedData?.questions || []\<close>).
  \<open>answersRef\<close> is the identity of the \<open>selectedAnswers\<close> object: every
  \<^verbatim>\<open>setSelectedAnswers({..})\<close> stores a fresh object, and React compares effect dependencies
  by identity. The cells of the explanation service and of the sound preference are left
  out; no modelled function reads them.
\<close>

record FlashcardView =
  flashcardId :: string
  loadedQuestions :: "Question list"
  loading :: bool
  currentQuestionIndex :: int
  selectedAnswers :: "int \<rightharpoonup> string"
  answersRef :: nat
  showAnswers :: bool
  studyMode :: StudyMode
  quizTimer :: int
  quizFinished :: bool
  quizAborted :: bool
  quizStarted :: bool
  easyModeTime :: int
  selectedTimerPerQuestion :: int
  quizDifficulty :: "QuizDifficulty option"
  connectionLost :: bool
  offlineSince :: "int option"
  cheatingDetected :: bool
  offlineTimeoutWarning :: bool
  offlineElapsedSeconds :: int
  shuffledQuestions :: "Question list"

text \<open>What \<^verbatim>\<open>offlineStorage.setQuizSession\<close> is handed by the auto-save effect.\<close>

record QuizSessionData =
  saved_flashcardId :: string
  saved_currentQuestionIndex :: int
  saved_selectedAnswers :: "int \<rightharpoonup> string"
  saved_studyMode :: StudyMode
  saved_quizTimer :: int
  saved_selectedTimerPerQuestion :: int
  saved_quizStarted :: bool
  saved_timestamp :: int
  saved_cheatingDetected :: bool
  saved_offlineSince :: "int option"

text \<open>
  Modelled from the spec: the module \<^verbatim>\<open>services/offlineStorage\<close> is not among the sources.
  The specification describes it as a per-flashcard persisted slot holding the session
  snapshot: \<open>setQuizSession\<close> writes the slot of a flashcard, \<open>deleteQuizSession\<close> empties it.
\<close>

type_synonym QuizStorage = "string \<rightharpoonup> QuizSessionData"

definition setQuizSession :: "string \<Rightarrow> QuizSessionData \<Rightarrow> QuizStorage \<Rightarrow> QuizStorage" where
  "setQuizSession fid sessionData store = store(fid \<mapsto> sessionData)"

definition deleteQuizSession :: "string \<Rightarrow> QuizStorage \<Rightarrow> QuizStorage" where
  "deleteQuizSession fid store = store(fid := None)"

text \<open>
  The condition the auto-save, connection, cheating-detection, timer and
  navigation-interception effects start with:
  \<^verbatim>\<open>if (studyMode !== 'quiz' || !quizStarted || quizFinished || quizAborted) return;\<close>
\<close>

definition quizRunning :: "FlashcardView \<Rightarrow> bool" where
  "quizRunning v = (studyMode v = QuizMode \<and> quizStarted v \<and> \<not> quizFinished v \<and> \<not> quizAborted v)"

definition questions :: "FlashcardView \<Rightarrow> Question list" where
  "questions v = (if length (shuffledQuestions v) > 0 then shuffledQuestions v else loadedQuestions v)"

subsection \<open>Starting a quiz\<close>

text \<open>
  \<^verbatim>\<open>shuffleArray\<close>: Fisher-Yates from the last index down to 1. \<open>rnd i\<close> is the random draw
  of the step at index \<open>i\<close>; \<^verbatim>\<open>Math.floor(Math.random() * (i + 1))\<close> lies in \<open>0..i\<close>, which
  the model obtains by reducing the draw modulo \<open>i + 1\<close>. The swap reads both elements
  before it writes.
\<close>

fun shuffle_from :: "(nat \<Rightarrow> nat) \<Rightarrow> nat \<Rightarrow> 'a list \<Rightarrow> 'a list" where
  "shuffle_from rnd 0 shuffled = shuffled"
| "shuffle_from rnd (Suc k) shuffled =
     (let i = Suc k; j = rnd i mod (i + 1)
      in shuffle_from rnd k (shuffled[i := shuffled ! j, j := shuffled ! i]))"

definition shuffleArray :: "(nat \<Rightarrow> nat) \<Rightarrow> 'a list \<Rightarrow> 'a list" where
  "shuffleArray rnd array = shuffle_from rnd (length array - 1) array"

text \<open>
  \<^verbatim>\<open>customTime\<close> is optional: \<open>None\<close> is \<^verbatim>\<open>undefined\<close>. The test
  \<^verbatim>\<open>customTime && customTime >= 30\<close> also needs a truthy (non-zero) number.
\<close>

definition timePerQuestion :: "QuizDifficulty \<Rightarrow> int option \<Rightarrow> int" where
  "timePerQuestion difficulty customTime =
     (if difficulty = Hard then 10
      else if difficulty = Medium then 20
      else if difficulty = Easy \<and> (case customTime of None \<Rightarrow> False | Some t \<Rightarrow> t \<noteq> 0 \<and> t \<ge> 30)
        then the customTime
      else if difficulty = Practice then 0
      else 10)"

definition startQuizWithDifficulty ::
  "(nat \<Rightarrow> nat) \<Rightarrow> QuizDifficulty \<Rightarrow> int option \<Rightarrow> FlashcardView \<Rightarrow> FlashcardView" where
  "startQuizWithDifficulty rnd difficulty customTime v =
     v\<lparr>shuffledQuestions := shuffleArray rnd (loadedQuestions v),
       quizDifficulty := Some difficulty,
       selectedTimerPerQuestion := timePerQuestion difficulty customTime,
       quizTimer := timePerQuestion difficulty customTime,
       quizStarted := True\<rparr>"

subsection \<open>Answering, advancing, submitting\<close>

definition currentQuestion :: "FlashcardView \<Rightarrow> Question option" where
  "currentQuestion v =
     (let i = currentQuestionIndex v
      in if 0 \<le> i \<and> i < int (length (questions v)) then Some (questions v ! nat i) else None)"

text \<open>
  A choice button's \<^verbatim>\<open>onClick\<close>. The buttons are rendered for the current question only, so
  nothing happens without one.
\<close>

definition selectAnswer :: "string \<Rightarrow> FlashcardView \<Rightarrow> FlashcardView" where
  "selectAnswer choiceLetter v =
     (case currentQuestion v of
        None \<Rightarrow> v
      | Some q \<Rightarrow>
          if \<not> showAnswers v
          then v\<lparr>selectedAnswers := (selectedAnswers v)(number q \<mapsto> choiceLetter),
                 answersRef := Suc (answersRef v)\<rparr>
          else v)"

definition submitQuiz :: "FlashcardView \<times> QuizStorage \<Rightarrow> FlashcardView \<times> QuizStorage" where
  "submitQuiz vs =
     (let v = fst vs; store = snd vs
      in (v\<lparr>quizFinished := True\<rparr>, deleteQuizSession (flashcardId v) store))"

definition moveToNextQuestion :: "FlashcardView \<times> QuizStorage \<Rightarrow> FlashcardView \<times> QuizStorage" where
  "moveToNextQuestion vs =
     (let v = fst vs; store = snd vs
      in if currentQuestionIndex v < int (length (questions v)) - 1
         then (v\<lparr>currentQuestionIndex := currentQuestionIndex v + 1,
                 showAnswers := False,
                 quizTimer := (if quizDifficulty v \<noteq> Some Practice
                               then selectedTimerPerQuestion v else quizTimer v)\<rparr>, store)
         else submitQuiz vs)"

subsection \<open>Effects\<close>

text \<open>The auto-save effect: its dependency array, the snapshot it builds, and its body.\<close>

definition autoSaveDeps ::
  "FlashcardView \<Rightarrow> string \<times> int \<times> nat \<times> int \<times> int \<times> StudyMode \<times> bool \<times> bool \<times> bool \<times> bool \<times> int option" where
  "autoSaveDeps v =
     (flashcardId v, currentQuestionIndex v, answersRef v, quizTimer v,
      selectedTimerPerQuestion v, studyMode v, quizStarted v, quizFinished v, quizAborted v,
      cheatingDetected v, offlineSince v)"

definition sessionData :: "int \<Rightarrow> FlashcardView \<Rightarrow> QuizSessionData" where
  "sessionData now v =
     \<lparr>saved_flashcardId = flashcardId v,
      saved_currentQuestionIndex = currentQuestionIndex v,
      saved_selectedAnswers = selectedAnswers v,
      saved_studyMode = studyMode v,
      saved_quizTimer = quizTimer v,
      saved_selectedTimerPerQuestion = selectedTimerPerQuestion v,
      saved_quizStarted = True,
      saved_timestamp = now,
      saved_cheatingDetected = cheatingDetected v,
      saved_offlineSince = offlineSince v\<rparr>"

definition autoSaveEffect :: "int \<Rightarrow> FlashcardView \<Rightarrow> QuizStorage \<Rightarrow> QuizStorage" where
  "autoSaveEffect now v store =
     (if \<not> quizRunning v then store
      else setQuizSession (flashcardId v) (sessionData now v) store)"

text \<open>
  After a render React runs an effect when a dependency differs from the previous render:
  \<open>prev\<close> is the state of the previous render, \<open>v\<close> the state just rendered.
\<close>

definition commitAutoSave :: "int \<Rightarrow> FlashcardView \<Rightarrow> FlashcardView \<times> QuizStorage \<Rightarrow> FlashcardView \<times> QuizStorage" where
  "commitAutoSave now prev vs =
     (let v = fst vs; store = snd vs
      in if autoSaveDeps prev \<noteq> autoSaveDeps v then (v, autoSaveEffect now v store) else (v, store))"

text \<open>
  The connection effect, run with the value of \<^verbatim>\<open>useIsOnline()\<close>. The second component
  tells whether it armed the 500 ms timeout whose callback is \<open>autoSubmitAfterReconnect\<close>.
\<close>

definition connectionEffect :: "bool \<Rightarrow> int \<Rightarrow> FlashcardView \<Rightarrow> FlashcardView \<times> bool" where
  "connectionEffect isOnline now v =
     (if \<not> quizRunning v then (v, False)
      else if \<not> isOnline \<and> \<not> connectionLost v
        then (v\<lparr>connectionLost := True, offlineSince := Some now\<rparr>, False)
      else if isOnline \<and> connectionLost v
        then (v\<lparr>connectionLost := False\<rparr>, cheatingDetected v)
      else (v, False))"

definition autoSubmitAfterReconnect :: "FlashcardView \<Rightarrow> FlashcardView" where
  "autoSubmitAfterReconnect v = v\<lparr>quizFinished := True\<rparr>"

text \<open>
  The offline monitor: installed unless
  \<^verbatim>\<open>!connectionLost || !offlineSince || quizFinished || quizAborted\<close>
  (a time stamp of 0 is falsy). \<open>offlineMonitorTick\<close> is the interval's callback at time
  \<open>now\<close>.
\<close>

definition offlineMonitorInstalled :: "FlashcardView \<Rightarrow> bool" where
  "offlineMonitorInstalled v =
     (connectionLost v \<and> (case offlineSince v of None \<Rightarrow> False | Some t \<Rightarrow> t \<noteq> 0)
      \<and> \<not> quizFinished v \<and> \<not> quizAborted v)"

definition OFFLINE_TIMEOUT :: int where
  "OFFLINE_TIMEOUT = 5 * 60"

definition WARNING_THRESHOLD :: int where
  "WARNING_THRESHOLD = 4 * 60"

definition offlineMonitorTick :: "int \<Rightarrow> FlashcardView \<Rightarrow> FlashcardView" where
  "offlineMonitorTick now v =
     (if \<not> offlineMonitorInstalled v then v
      else let offlineSeconds = (now - the (offlineSince v)) div 1000;
               v1 = v\<lparr>offlineElapsedSeconds := offlineSeconds\<rparr>;
               v2 = (if offlineSeconds \<ge> WARNING_THRESHOLD \<and> \<not> offlineTimeoutWarning v
                     then v1\<lparr>offlineTimeoutWarning := True\<rparr> else v1)
           in if offlineSeconds \<ge> OFFLINE_TIMEOUT then v2\<lparr>quizFinished := True\<rparr> else v2)"

text \<open>
  The quiz timer: installed while the quiz runs, the card is loaded, the connection is up
  and the mode is not practice. Its callback counts down; at \<open>prev \<le> 1\<close> it moves on and
  re-arms the timer with the per-question budget.
\<close>

definition quizTimerInstalled :: "FlashcardView \<Rightarrow> bool" where
  "quizTimerInstalled v =
     (quizRunning v \<and> \<not> loading v \<and> \<not> connectionLost v \<and> quizDifficulty v \<noteq> Some Practice)"

definition quizTimerTick :: "FlashcardView \<times> QuizStorage \<Rightarrow> FlashcardView \<times> QuizStorage" where
  "quizTimerTick vs =
     (let v = fst vs; store = snd vs
      in if \<not> quizTimerInstalled v then vs
         else if quizTimer v \<le> 1
           then (let vs' = moveToNextQuestion vs
                 in ((fst vs')\<lparr>quizTimer := selectedTimerPerQuestion v\<rparr>, snd vs'))
         else (v\<lparr>quizTimer := quizTimer v - 1\<rparr>, store))"

text \<open>A timer tick followed by the render it causes and that render's auto-save.\<close>

definition timerTickRendered :: "int \<Rightarrow> FlashcardView \<times> QuizStorage \<Rightarrow> FlashcardView \<times> QuizStorage" where
  "timerTickRendered now vs = commitAutoSave now (fst vs) (quizTimerTick vs)"

subsection \<open>Document events\<close>

text \<open>
  What the listeners read from an event. \<open>VisibilityChange hidden\<close> carries
  \<^verbatim>\<open>document.hidden\<close>. \<open>BeforeUnload\<close> is the window's \<^verbatim>\<open>beforeunload\<close>, whose handlers only
  ask the browser to confirm and set no state. For a click: \<open>navLink\<close> is the result of
  \<^verbatim>\<open>target.closest('nav a, nav button')\<close> (\<open>None\<close> for \<^verbatim>\<open>null\<close>), carrying the element's
  \<^verbatim>\<open>href\<close> attribute if it has one; \<open>inChatWidget\<close> is whether
  \<^verbatim>\<open>target.closest('[data-chat-widget]')\<close> finds an element.
\<close>

record ClickTarget =
  navLink :: "string option option"
  inChatWidget :: bool

datatype DocumentEvent = VisibilityChange bool | Click ClickTarget | BeforeUnload

text \<open>
  \<^verbatim>\<open>navLink && !navLink.getAttribute('href')?.includes(window.location.pathname)\<close>
\<close>

definition leavesRoute :: "string \<Rightarrow> ClickTarget \<Rightarrow> bool" where
  "leavesRoute pathname t =
     (case navLink t of
        None \<Rightarrow> False
      | Some None \<Rightarrow> True
      | Some (Some href) \<Rightarrow> \<not> str_includes href pathname)"

text \<open>The listeners of the offline cheating-detection effect (installed while offline).\<close>

definition offlineCheatingInstalled :: "FlashcardView \<Rightarrow> bool" where
  "offlineCheatingInstalled v = (quizRunning v \<and> connectionLost v)"

definition offlineCheatingListeners :: "string \<Rightarrow> DocumentEvent \<Rightarrow> FlashcardView \<Rightarrow> FlashcardView" where
  "offlineCheatingListeners pathname ev v =
     (case ev of
        VisibilityChange hidden \<Rightarrow> if hidden then v\<lparr>cheatingDetected := True\<rparr> else v
      | Click t \<Rightarrow> if leavesRoute pathname t then v\<lparr>cheatingDetected := True\<rparr> else v
      | BeforeUnload \<Rightarrow> v)"

text \<open>
  The listeners of the navigation-interception effect (installed while the quiz runs):
  \<^verbatim>\<open>handleVisibilityChange\<close>, then \<^verbatim>\<open>handleNavClick\<close> and \<^verbatim>\<open>handleChatClick\<close>.
\<close>

definition interceptionListeners :: "string \<Rightarrow> DocumentEvent \<Rightarrow> FlashcardView \<Rightarrow> FlashcardView" where
  "interceptionListeners pathname ev v =
     (case ev of
        VisibilityChange hidden \<Rightarrow> if hidden then v\<lparr>quizFinished := True\<rparr> else v
      | Click t \<Rightarrow>
          (let v1 = (if leavesRoute pathname t then v\<lparr>quizAborted := True\<rparr> else v)
           in if inChatWidget t then v1\<lparr>quizAborted := True\<rparr> else v1)
      | BeforeUnload \<Rightarrow> v)"

text \<open>
  One document event reaches every listener installed by the last render; the listeners
  only set flags, so the state after the batch is the composition.
\<close>

definition dispatchEvent :: "string \<Rightarrow> DocumentEvent \<Rightarrow> FlashcardView \<Rightarrow> FlashcardView" where
  "dispatchEvent pathname ev v =
     (let v1 = (if offlineCheatingInstalled v then offlineCheatingListeners pathname ev v else v)
      in if quizRunning v then interceptionListeners pathname ev v1 else v1)"

subsection \<open>Score\<close>

text \<open>
  \<^verbatim>\<open>calculateScore\<close> over the rendered \<^verbatim>\<open>questions\<close>. The component returns early when there
  are no questions, so \<open>total\<close> is positive where the source evaluates the percentage; for
  the empty list the quotient \<^verbatim>\<open>0 / 0\<close> is \<^verbatim>\<open>NaN\<close>, here \<open>None\<close>.
\<close>

record Score =
  correct :: nat
  total :: nat
  percentage :: "int option"

definition countCorrect :: "Question list \<Rightarrow> (int \<rightharpoonup> string) \<Rightarrow> nat" where
  "countCorrect qs answers =
     foldl (\<lambda>correctCount q. if answers (number q) = Some (correct_answer q)
                              then correctCount + 1 else correctCount) 0 qs"

definition calculateScore :: "FlashcardView \<Rightarrow> Score" where
  "calculateScore v =
     (let qs = questions v; correctCount = countCorrect qs (selectedAnswers v)
      in \<lparr>correct = correctCount,
          total = length qs,
          percentage =
            (if length qs = 0 then None
             else Some (Math_round (js_mul (js_div (of_nat correctCount) (of_nat (length qs))) 100)))\<rparr>)"

text \<open>
  The percentage in the words of the specification, \<open>round(correct / total * 100)\<close>, in
  exact arithmetic: the integer nearest to the quotient, a half rounded up as
  \<^verbatim>\<open>Math.round\<close> does.
\<close>

definition roundedPercentage :: "nat \<Rightarrow> nat \<Rightarrow> int" where
  "roundedPercentage c t = round (of_nat c / of_nat t * 100 :: rat)"

section \<open>Concrete inputs\<close>

text \<open>A card of five questions, and a hard quiz on it that is running and online.\<close>

definition q1 :: Question where
  "q1 = \<lparr>number = 1, question = ''Q1'', choices = [''A. a'', ''B. b''], correct_answer = ''A''\<rparr>"

definition q2 :: Question where
  "q2 = \<lparr>number = 2, question = ''Q2'', choices = [''A. a'', ''B. b''], correct_answer = ''B''\<rparr>"

definition q3 :: Question where
  "q3 = \<lparr>number = 3, question = ''Q3'', choices = [''A. a'', ''B. b''], correct_answer = ''A''\<rparr>"

definition q4 :: Question where
  "q4 = \<lparr>number = 4, question = ''Q4'', choices = [''A. a'', ''B. b''], correct_answer = ''B''\<rparr>"

definition q5 :: Question where
  "q5 = \<lparr>number = 5, question = ''Q5'', choices = [''A. a'', ''B. b''], correct_answer = ''A''\<rparr>"

definition quiz0 :: FlashcardView where
  "quiz0 =
     \<lparr>flashcardId = ''card-1'',
      loadedQuestions = [q1, q2, q3, q4, q5],
      loading = False,
      currentQuestionIndex = 0,
      selectedAnswers = Map.empty,
      answersRef = 0,
      showAnswers = False,
      studyMode = QuizMode,
      quizTimer = 10,
      quizFinished = False,
      quizAborted = False,
      quizStarted = True,
      easyModeTime = 30,
      selectedTimerPerQuestion = 10,
      quizDifficulty = Some Hard,
      connectionLost = False,
      offlineSince = None,
      cheatingDetected = False,
      offlineTimeoutWarning = False,
      offlineElapsedSeconds = 0,
      shuffledQuestions = [q3, q1, q5, q2, q4]\<rparr>"

text \<open>A click on a navigation link to another route, and the route of the quiz.\<close>

definition navClick :: ClickTarget where
  "navClick = \<lparr>navLink = Some (Some ''/community''), inChatWidget = False\<rparr>"

definition quizPath :: string where
  "quizPath = ''/user/flashcards''"

text \<open>A widget with one conversation selected that has three unread messages.\<close>

definition widget0 :: ChatWidget where
  "widget0 =
     \<lparr>hasSession = True,
      selectedId = Some ''c1'',
      chat_messages = [],
      conversations =
        [\<lparr>conv_id = ''c1'', participants = [(''ann'', User), (''bob'', Admin)],
          lastMessageAt = Some 1000, lastMessagePreview = Some ''hi'', unreadCount = 3\<rparr>],
      messagesLoadingRef = False,
      inputText = [],
      sending = False\<rparr>"

text \<open>
  The same quiz offline since time 1000000 (ms), and a storage whose slot for the card holds
  the snapshot saved when the connection dropped.
\<close>

definition quizOffline :: FlashcardView where
  "quizOffline = quiz0\<lparr>connectionLost := True, offlineSince := Some 1000000\<rparr>"

definition savedStore :: QuizStorage where
  "savedStore = setQuizSession ''card-1'' (sessionData 1000000 quizOffline) Map.empty"

text \<open>
  The offline quiz with the cheating flag raised, as the offline listeners leave it after a
  tab switch.
\<close>

definition quizOfflineFlagged :: FlashcardView where
  "quizOfflineFlagged = quizOffline\<lparr>cheatingDetected := True\<rparr>"

text \<open>
  Two offline episodes of one session: the connection drops at 1000000, the monitor ticks
  240 s later, the connection returns at 1250000 and drops again at 2000000.
\<close>

definition secondOfflineEpisode :: FlashcardView where
  "secondOfflineEpisode =
     (let v1 = fst (connectionEffect False 1000000 quiz0);
          v2 = offlineMonitorTick 1240000 v1;
          v3 = fst (connectionEffect True 1250000 v2)
      in fst (connectionEffect False 2000000 v3))"

text \<open>
  The same two episodes of a practice quiz, which has no question timer: the state after
  the reconnect at 1250000, and the state after the connection has dropped again.
\<close>

definition quizPractice :: FlashcardView where
  "quizPractice = quiz0\<lparr>quizDifficulty := Some Practice, selectedTimerPerQuestion := 0,
                         quizTimer := 0\<rparr>"

definition practiceReconnected :: FlashcardView where
  "practiceReconnected =
     (let v1 = fst (connectionEffect False 1000000 quizPractice);
          v2 = offlineMonitorTick 1240000 v1
      in fst (connectionEffect True 1250000 v2))"

definition practiceSecondEpisode :: FlashcardView where
  "practiceSecondEpisode = fst (connectionEffect False 2000000 practiceReconnected)"

text \<open>Three roster entries: two offline members never seen, one online member.\<close>

definition bob :: UserInfo where
  "bob = \<lparr>username = ''bob'', role = User, online = False, lastSeen = None\<rparr>"

definition alice :: UserInfo where
  "alice = \<lparr>username = ''alice'', role = User, online = False, lastSeen = None\<rparr>"

definition carol :: UserInfo where
  "carol = \<lparr>username = ''carol'', role = User, online = True, lastSeen = Some 500\<rparr>"





text \<open>
  An admin session; a feed of 21 events with ids \<open>a\<close> to \<open>u\<close>, newest first; a feed of two
  events; the notifications page before its first fetch; and the page and storage after the
  page has loaded a feed and the admin has pressed "Mark all read".
\<close>

definition adminSession :: Session where
  "adminSession = \<lparr>token = ''t'', session_username = ''root'', session_role = Admin\<rparr>"

definition event :: "char \<Rightarrow> int \<Rightarrow> PresenceEvent" where
  "event c t = \<lparr>event_id = [c], event_username = ''ann'', event_role = User,
               event_type = Login, timestamp = t\<rparr>"

definition feed21 :: "PresenceEvent list" where
  "feed21 = map2 event ''abcdefghijklmnopqrstu'' (rev [0..20])"

definition feed2 :: "PresenceEvent list" where
  "feed2 = [event CHR ''a'' 2, event CHR ''b'' 1]"

text \<open>A feed of two events, one of whose ids is the name of an inherited property.\<close>

definition feedInherited :: "PresenceEvent list" where
  "feedInherited =
     [\<lparr>event_id = ''constructor'', event_username = ''ann'', event_role = User,
       event_type = Login, timestamp = 2\<rparr>,
      event CHR ''b'' 1]"

definition page0 :: NotificationsPage where
  "page0 = \<lparr>presenceEvents = [], readMap = Map.empty\<rparr>"

definition afterMarkAllRead :: "PresenceEvent list \<Rightarrow> NotificationsPage \<times> LocalStorage" where
  "afterMarkAllRead events =
     markAllRead True (Some adminSession) (loadEvents (Some events) page0, Map.empty)"

text \<open>
  The scenario of the specification: five questions, the first one shown (\<open>q3\<close>) answered
  correctly, one answered wrongly, the rest unanswered, then submitted.
\<close>

definition quizSubmitted :: FlashcardView where
  "quizSubmitted = quiz0\<lparr>currentQuestionIndex := 2, selectedAnswers := [3 \<mapsto> ''A'', 5 \<mapsto> ''B''],
                          quizFinished := True\<rparr>"

text \<open>
  A finished quiz on a card of forty questions, every question answered, the first
  twenty-three of the card correctly.
\<close>

definition question40 :: "nat \<Rightarrow> Question" where
  "question40 i = \<lparr>number = int i, question = ''Q'', choices = [''A. a'', ''B. b''],
                   correct_answer = ''A''\<rparr>"

definition quiz40 :: FlashcardView where
  "quiz40 = quiz0\<lparr>loadedQuestions := map question40 [1..<41],
                   shuffledQuestions := rev (map question40 [1..<41]),
                   currentQuestionIndex := 39,
                   selectedAnswers := (\<lambda>n. if 1 \<le> n \<and> n \<le> 23 then Some ''A'' else Some ''B''),
                   quizFinished := True\<rparr>"

chapter \<open>Properties\<close>

section \<open>Starting a quiz: the per-question budget\<close>

text \<open>
  Claim C10. Starting a quiz with difficulty \<open>Easy\<close> uses the custom per-question time only
  when it is at least 30 seconds; with a smaller custom time, or none, the budget (and the
  timer armed with it) is 10 seconds, the value of the \<open>Hard\<close> mode. Nothing is rejected and
  nothing is clamped up to 30.
\<close>

theorem easy_budget_falls_back_to_ten:
  "selectedTimerPerQuestion (startQuizWithDifficulty rnd Easy customTime v)
     = (case customTime of None \<Rightarrow> 10 | Some t \<Rightarrow> if t \<ge> 30 then t else 10)
   \<and> quizTimer (startQuizWithDifficulty rnd Easy customTime v)
     = (case customTime of None \<Rightarrow> 10 | Some t \<Rightarrow> if t \<ge> 30 then t else 10)
   \<and> quizStarted (startQuizWithDifficulty rnd Easy customTime v)
   \<and> selectedTimerPerQuestion (startQuizWithDifficulty rnd Hard customTime v) = 10"
  by (simp add: startQuizWithDifficulty_def timePerQuestion_def split: option.split)

section \<open>Leaving the quiz while online\<close>

lemma quizRunning_quiz0: "quizRunning quiz0"
  by (simp add: quizRunning_def quiz0_def)

text \<open>
  Claim C1, as stated, fails for the tab-hidden event: in a running, online quiz the
  visibility listener sets \<open>quizFinished\<close>, and the session is not aborted.
\<close>

theorem tab_hidden_online_not_aborted:
  "quizRunning quiz0 \<and> \<not> connectionLost quiz0
   \<and> quizFinished (dispatchEvent quizPath (VisibilityChange True) quiz0)
   \<and> \<not> quizAborted (dispatchEvent quizPath (VisibilityChange True) quiz0)"
  by (simp add: quizRunning_def quiz0_def dispatchEvent_def offlineCheatingInstalled_def
      interceptionListeners_def)

text \<open>
  Claim C1, amended. In a running quiz that is online, a tab-hidden event changes the session
  at once to finished (and nothing else), and a click that is a navigation attempt, or a click
  inside the chat widget, changes it at once to aborted (and nothing else).
\<close>

theorem leaving_while_online_ends_quiz:
  assumes "quizRunning v" and "\<not> connectionLost v"
  shows "dispatchEvent p (VisibilityChange True) v = v\<lparr>quizFinished := True\<rparr>
       \<and> (leavesRoute p t \<or> inChatWidget t \<longrightarrow>
            dispatchEvent p (Click t) v = v\<lparr>quizAborted := True\<rparr>)"
  using assms
  by (simp add: dispatchEvent_def offlineCheatingInstalled_def interceptionListeners_def Let_def)

theorem leaving_while_online_ends_quiz_witness:
  "quizFinished (dispatchEvent quizPath (VisibilityChange True) quiz0)
   \<and> \<not> quizAborted (dispatchEvent quizPath (VisibilityChange True) quiz0)
   \<and> leavesRoute quizPath navClick
   \<and> quizAborted (dispatchEvent quizPath (Click navClick) quiz0)
   \<and> \<not> quizFinished (dispatchEvent quizPath (Click navClick) quiz0)"
proof -
  have c: "\<not> connectionLost quiz0" by (simp add: quiz0_def)
  have l: "leavesRoute quizPath navClick"
    by (simp add: leavesRoute_def navClick_def quizPath_def)
  from leaving_while_online_ends_quiz [OF quizRunning_quiz0 c, of quizPath navClick] l
  show ?thesis by (simp add: quiz0_def)
qed

section \<open>The unread badge of a conversation\<close>

lemma zeroed_ids:
  "map conv_id (map (\<lambda>c. if conv_id c = sid then c\<lparr>unreadCount := 0\<rparr> else c) cs) = map conv_id cs"
  by (induction cs) simp_all

lemma zeroed_others:
  "filter (\<lambda>c. conv_id c \<noteq> sid) (map (\<lambda>c. if conv_id c = sid then c\<lparr>unreadCount := 0\<rparr> else c) cs)
     = filter (\<lambda>c. conv_id c \<noteq> sid) cs"
  by (induction cs) simp_all

lemma zeroed_selected:
  assumes "c \<in> set (map (\<lambda>c. if conv_id c = sid then c\<lparr>unreadCount := 0\<rparr> else c) cs)"
    and "conv_id c = sid"
  shows "unreadCount c = 0"
proof -
  from assms(1) obtain d where d: "c = (if conv_id d = sid then d\<lparr>unreadCount := 0\<rparr> else d)"
    unfolding set_map by (rule imageE)
  show ?thesis
  proof (cases "conv_id d = sid")
    case True
    with d show ?thesis by simp
  next
    case False
    with d assms(2) show ?thesis by simp
  qed
qed

text \<open>
  Claim C9, as stated, fails: while the mark-read call is in flight the badge still shows
  its old value, and when the call fails the badge is never zeroed.
\<close>

theorem badge_not_zeroed_before_confirmation:
  "snd (onFocus_request widget0) = Some ''c1''
   \<and> map unreadCount (conversations (fst (onFocus_request widget0))) = [3]
   \<and> map unreadCount (conversations (onFocus False widget0)) = [3]"
  by (simp add: onFocus_request_def onFocus_def widget0_def onFocus_settle_def)

text \<open>
  Claim C9, amended. Focusing the input of the selected conversation issues the mark-read
  call and changes nothing locally while the call is in flight. When the call fails the
  state stays as it was (the error is swallowed). When it succeeds, the selected
  conversation's unread count becomes 0 and every other conversation is unchanged.
\<close>

theorem focus_zeroes_badge_after_confirmation:
  assumes "hasSession w" and "selectedId w = Some sid" and "sid \<noteq> []"
  shows "onFocus_request w = (w, Some sid)
       \<and> onFocus False w = w
       \<and> map conv_id (conversations (onFocus True w)) = map conv_id (conversations w)
       \<and> (\<forall>c \<in> set (conversations (onFocus True w)). conv_id c = sid \<longrightarrow> unreadCount c = 0)
       \<and> filter (\<lambda>c. conv_id c \<noteq> sid) (conversations (onFocus True w))
           = filter (\<lambda>c. conv_id c \<noteq> sid) (conversations w)"
proof -
  have r: "onFocus_request w = (w, Some sid)"
    using assms by (simp add: onFocus_request_def)
  have f: "onFocus False w = w"
    using r by (simp add: onFocus_def onFocus_settle_def)
  have t: "conversations (onFocus True w)
             = map (\<lambda>c. if conv_id c = sid then c\<lparr>unreadCount := 0\<rparr> else c) (conversations w)"
    using r by (simp add: onFocus_def onFocus_settle_def)
  have i: "map conv_id (conversations (onFocus True w)) = map conv_id (conversations w)"
    unfolding t by (rule zeroed_ids)
  have z: "\<forall>c \<in> set (conversations (onFocus True w)). conv_id c = sid \<longrightarrow> unreadCount c = 0"
    unfolding t using zeroed_selected by blast
  have o: "filter (\<lambda>c. conv_id c \<noteq> sid) (conversations (onFocus True w))
           = filter (\<lambda>c. conv_id c \<noteq> sid) (conversations w)"
    unfolding t by (rule zeroed_others)
  show ?thesis by (intro conjI r f i z o)
qed

theorem focus_zeroes_badge_after_confirmation_witness:
  "onFocus_request widget0 = (widget0, Some ''c1'')
   \<and> onFocus False widget0 = widget0
   \<and> map unreadCount (conversations (onFocus True widget0)) = [0]"
proof -
  have a: "hasSession widget0" "selectedId widget0 = Some ''c1''" "''c1'' \<noteq> []"
    by (simp_all add: widget0_def)
  note th = focus_zeroes_badge_after_confirmation [OF a]
  have "map unreadCount (conversations (onFocus True widget0)) = [0]"
    by (simp add: onFocus_request_def onFocus_def onFocus_settle_def widget0_def)
  with th [THEN conjunct1] th [THEN conjunct2, THEN conjunct1]
  show ?thesis by (intro conjI)
qed

section \<open>Persisting the quiz session\<close>

lemma commitAutoSave_changed:
  assumes "quizRunning v" and "autoSaveDeps prev \<noteq> autoSaveDeps v"
  shows "snd (commitAutoSave now prev (v, store)) (flashcardId v) = Some (sessionData now v)"
  using assms by (simp add: commitAutoSave_def autoSaveEffect_def setQuizSession_def)

lemma commitAutoSave_unchanged:
  assumes "autoSaveDeps prev = autoSaveDeps v"
  shows "snd (commitAutoSave now prev (v, store)) = store"
  using assms by (simp add: commitAutoSave_def)

lemma commitAutoSave_terminal:
  assumes "quizFinished v \<or> quizAborted v"
  shows "snd (commitAutoSave now prev (v, store)) = store"
  using assms by (auto simp add: commitAutoSave_def autoSaveEffect_def quizRunning_def)

lemma timer_tick_writes:
  assumes "quizTimerInstalled v" and "1 < quizTimer v"
  shows "snd (timerTickRendered now (v, store)) (flashcardId v)
           = Some (sessionData now (v\<lparr>quizTimer := quizTimer v - 1\<rparr>))"
proof -
  let ?v' = "v\<lparr>quizTimer := quizTimer v - 1\<rparr>"
  have t: "quizTimerTick (v, store) = (?v', store)"
    using assms by (simp add: quizTimerTick_def)
  have r: "quizRunning ?v'"
    using assms(1) by (simp add: quizTimerInstalled_def quizRunning_def)
  have d: "autoSaveDeps v \<noteq> autoSaveDeps ?v'"
    by (simp add: autoSaveDeps_def)
  from commitAutoSave_changed [OF r d, of now store]
  show ?thesis by (simp add: timerTickRendered_def t)
qed

lemma select_answer_writes:
  assumes "quizRunning v" and "currentQuestion v \<noteq> None" and "\<not> showAnswers v"
  shows "snd (commitAutoSave now v (selectAnswer c v, store)) (flashcardId v)
           = Some (sessionData now (selectAnswer c v))"
proof -
  from assms(2) obtain q where q: "currentQuestion v = Some q" by blast
  have s: "selectAnswer c v = v\<lparr>selectedAnswers := (selectedAnswers v)(number q \<mapsto> c),
                                  answersRef := Suc (answersRef v)\<rparr>"
    using q assms(3) by (simp add: selectAnswer_def)
  have r: "quizRunning (selectAnswer c v)"
    using assms(1) unfolding s by (simp add: quizRunning_def)
  have d: "autoSaveDeps v \<noteq> autoSaveDeps (selectAnswer c v)"
    unfolding s by (simp add: autoSaveDeps_def)
  have f: "flashcardId (selectAnswer c v) = flashcardId v"
    unfolding s by simp
  from commitAutoSave_changed [OF r d, of now store] f
  show ?thesis by simp
qed

lemma advance_writes:
  assumes "quizRunning v" and "currentQuestionIndex v < int (length (questions v)) - 1"
  shows "snd (commitAutoSave now v (moveToNextQuestion (v, store))) (flashcardId v)
           = Some (sessionData now (fst (moveToNextQuestion (v, store))))"
proof -
  let ?v' = "v\<lparr>currentQuestionIndex := currentQuestionIndex v + 1,
                 showAnswers := False,
                 quizTimer := (if quizDifficulty v \<noteq> Some Practice
                               then selectedTimerPerQuestion v else quizTimer v)\<rparr>"
  have m: "moveToNextQuestion (v, store) = (?v', store)"
    using assms(2) by (simp add: moveToNextQuestion_def)
  have r: "quizRunning ?v'"
    using assms(1) by (simp add: quizRunning_def)
  have d: "autoSaveDeps v \<noteq> autoSaveDeps ?v'"
    by (simp add: autoSaveDeps_def)
  from commitAutoSave_changed [OF r d, of now store]
  show ?thesis unfolding m by simp
qed

text \<open>
  Claim C3, as stated, fails: a timer tick alone (the timer going from 10 to 9, nothing
  else changing) makes the auto-save effect write the slot, and the slot holds the
  remaining time.
\<close>

theorem timer_tick_alone_is_persisted:
  "quizTimerTick (quiz0, Map.empty) = (quiz0\<lparr>quizTimer := 9\<rparr>, Map.empty)
   \<and> map_option saved_quizTimer (snd (timerTickRendered 5000 (quiz0, Map.empty)) ''card-1'') = Some 9"
  by (simp add: timerTickRendered_def quizTimerTick_def quizTimerInstalled_def quizRunning_def
      commitAutoSave_def autoSaveDeps_def autoSaveEffect_def setQuizSession_def sessionData_def
      quiz0_def Let_def)

text \<open>
  Claim C3, amended. While a quiz is running, the render after any change of a dependency of
  the auto-save effect (card id, question index, answers object, remaining time,
  per-question budget, study mode, started/finished/aborted, cheating flag, offline-since)
  writes the full snapshot to the card's slot, and a render without such a change writes
  nothing. The remaining time is part of the snapshot. In particular a timer tick, an answer
  selection and an advance to the next question each cause a write.
\<close>

theorem snapshot_written_when_a_dependency_changes:
  assumes "quizRunning v"
  shows "(autoSaveDeps prev \<noteq> autoSaveDeps v \<longrightarrow>
            snd (commitAutoSave now prev (v, store)) (flashcardId v) = Some (sessionData now v))
       \<and> (autoSaveDeps prev = autoSaveDeps v \<longrightarrow> snd (commitAutoSave now prev (v, store)) = store)
       \<and> saved_quizTimer (sessionData now v) = quizTimer v
       \<and> (quizTimerInstalled v \<and> 1 < quizTimer v \<longrightarrow>
            snd (timerTickRendered now (v, store)) (flashcardId v)
              = Some (sessionData now (v\<lparr>quizTimer := quizTimer v - 1\<rparr>)))
       \<and> (currentQuestion v \<noteq> None \<and> \<not> showAnswers v \<longrightarrow>
            snd (commitAutoSave now v (selectAnswer c v, store)) (flashcardId v)
              = Some (sessionData now (selectAnswer c v)))
       \<and> (currentQuestionIndex v < int (length (questions v)) - 1 \<longrightarrow>
            snd (commitAutoSave now v (moveToNextQuestion (v, store))) (flashcardId v)
              = Some (sessionData now (fst (moveToNextQuestion (v, store)))))"
proof (intro conjI impI)
  show "saved_quizTimer (sessionData now v) = quizTimer v"
    by (simp add: sessionData_def)
qed (use assms in \<open>simp_all only: commitAutoSave_changed commitAutoSave_unchanged
      timer_tick_writes select_answer_writes advance_writes not_False_eq_True\<close>)

theorem snapshot_written_when_a_dependency_changes_witness:
  "snd (commitAutoSave 5000 (quiz0\<lparr>quizTimer := 11\<rparr>) (quiz0, Map.empty)) ''card-1''
     = Some (sessionData 5000 quiz0)
   \<and> snd (commitAutoSave 5000 quiz0 (quiz0, Map.empty)) = Map.empty
   \<and> saved_quizTimer (sessionData 5000 quiz0) = 10
   \<and> snd (timerTickRendered 5000 (quiz0, Map.empty)) ''card-1''
     = Some (sessionData 5000 (quiz0\<lparr>quizTimer := 9\<rparr>))
   \<and> snd (commitAutoSave 5000 quiz0 (selectAnswer ''A'' quiz0, Map.empty)) ''card-1''
     = Some (sessionData 5000 (selectAnswer ''A'' quiz0))
   \<and> snd (commitAutoSave 5000 quiz0 (moveToNextQuestion (quiz0, Map.empty))) ''card-1''
     = Some (sessionData 5000 (fst (moveToNextQuestion (quiz0, Map.empty))))"
proof -
  have f: "flashcardId quiz0 = ''card-1''" "quizTimer quiz0 = 10" "\<not> showAnswers quiz0"
    "\<not> loading quiz0" "\<not> connectionLost quiz0" "quizDifficulty quiz0 = Some Hard"
    "currentQuestionIndex quiz0 = 0"
    by (simp_all add: quiz0_def)
  have i: "quizTimerInstalled quiz0"
    by (simp add: quizTimerInstalled_def quizRunning_quiz0 f)
  have q: "currentQuestion quiz0 \<noteq> None"
    by (simp add: currentQuestion_def questions_def quiz0_def)
  have n: "currentQuestionIndex quiz0 < int (length (questions quiz0)) - 1"
    by (simp add: questions_def quiz0_def)
  have d: "autoSaveDeps (quiz0\<lparr>quizTimer := 11\<rparr>) \<noteq> autoSaveDeps quiz0"
    by (simp add: autoSaveDeps_def f)
  note changed = snapshot_written_when_a_dependency_changes
         [OF quizRunning_quiz0, of "quiz0\<lparr>quizTimer := 11\<rparr>" 5000 Map.empty "''A''"]
  note same = snapshot_written_when_a_dependency_changes
         [OF quizRunning_quiz0, of quiz0 5000 Map.empty "''A''"]
  from changed same i q n d show ?thesis by (simp add: f)
qed

lemma submitQuiz_deletes:
  "quizFinished (fst (submitQuiz (v, store))) \<and> snd (submitQuiz (v, store)) (flashcardId v) = None"
  by (simp add: submitQuiz_def deleteQuizSession_def)

text \<open>
  Claim C4 does not hold of the code. \<open>submitQuiz\<close> (the manual submit, and advancing past
  the last question) deletes the slot, as the lemma above records; the other ways into a
  terminal state set the flag without calling it. With a snapshot in the card's slot:
  the offline monitor's tick at 300 s finishes the quiz; the reconnect of a flagged session
  arms the timeout whose callback finishes the quiz; a navigation click while online aborts
  the quiz. After each, and after the render that follows, the slot still holds the snapshot.
\<close>

theorem ending_without_submit_keeps_saved_session:
  "savedStore ''card-1'' = Some (sessionData 1000000 quizOffline)
   \<and> quizFinished (offlineMonitorTick 1300000 quizOffline)
   \<and> snd (commitAutoSave 1300000 quizOffline (offlineMonitorTick 1300000 quizOffline, savedStore)) ''card-1''
       = Some (sessionData 1000000 quizOffline)
   \<and> connectionEffect True 1100000 quizOfflineFlagged = (quizOfflineFlagged\<lparr>connectionLost := False\<rparr>, True)
   \<and> quizFinished (autoSubmitAfterReconnect (quizOfflineFlagged\<lparr>connectionLost := False\<rparr>))
   \<and> snd (commitAutoSave 1100500 (quizOfflineFlagged\<lparr>connectionLost := False\<rparr>)
         (autoSubmitAfterReconnect (quizOfflineFlagged\<lparr>connectionLost := False\<rparr>), savedStore)) ''card-1''
       = Some (sessionData 1000000 quizOffline)
   \<and> quizAborted (dispatchEvent quizPath (Click navClick) quiz0)
   \<and> snd (commitAutoSave 1000500 quiz0 (dispatchEvent quizPath (Click navClick) quiz0, savedStore)) ''card-1''
       = Some (sessionData 1000000 quizOffline)"
proof -
  have s: "savedStore ''card-1'' = Some (sessionData 1000000 quizOffline)"
    by (simp add: savedStore_def setQuizSession_def)
  have t: "quizFinished (offlineMonitorTick 1300000 quizOffline)"
    by (simp add: offlineMonitorTick_def offlineMonitorInstalled_def quizOffline_def quiz0_def
        OFFLINE_TIMEOUT_def WARNING_THRESHOLD_def Let_def)
  have c: "connectionEffect True 1100000 quizOfflineFlagged
             = (quizOfflineFlagged\<lparr>connectionLost := False\<rparr>, True)"
    by (simp add: connectionEffect_def quizOfflineFlagged_def quizRunning_def quizOffline_def quiz0_def)
  have a: "quizFinished (autoSubmitAfterReconnect (quizOfflineFlagged\<lparr>connectionLost := False\<rparr>))"
    by (simp add: autoSubmitAfterReconnect_def)
  have n: "quizAborted (dispatchEvent quizPath (Click navClick) quiz0)"
    by (simp add: dispatchEvent_def interceptionListeners_def offlineCheatingInstalled_def
        quizRunning_def leavesRoute_def navClick_def quizPath_def quiz0_def Let_def)
  show ?thesis
    using s t c a n by (simp add: commitAutoSave_terminal)
qed

section \<open>The offline monitor\<close>

lemma offline_tick_below_warning:
  assumes "offlineMonitorInstalled v" and "offlineSince v = Some T" and "now - T < 240000"
  shows "offlineMonitorTick now v = v\<lparr>offlineElapsedSeconds := (now - T) div 1000\<rparr>"
proof -
  from assms(3) have "(now - T) div 1000 < 240" by linarith
  then show ?thesis
    using assms(1,2)
    by (simp add: offlineMonitorTick_def OFFLINE_TIMEOUT_def WARNING_THRESHOLD_def Let_def)
qed

lemma offline_tick_warning:
  assumes "offlineMonitorInstalled v" and "offlineSince v = Some T" and "240000 \<le> now - T"
  shows "offlineTimeoutWarning (offlineMonitorTick now v)"
proof -
  from assms(3) have "240 \<le> (now - T) div 1000" by linarith
  then show ?thesis
    using assms(1,2)
    by (simp add: offlineMonitorTick_def OFFLINE_TIMEOUT_def WARNING_THRESHOLD_def Let_def)
qed

lemma offline_tick_timeout:
  assumes "offlineMonitorInstalled v" and "offlineSince v = Some T" and "300000 \<le> now - T"
  shows "quizFinished (offlineMonitorTick now v)"
    and "currentQuestionIndex (offlineMonitorTick now v) = currentQuestionIndex v"
proof -
  from assms(3) have "300 \<le> (now - T) div 1000" by linarith
  then show "quizFinished (offlineMonitorTick now v)"
    and "currentQuestionIndex (offlineMonitorTick now v) = currentQuestionIndex v"
    using assms(1,2)
    by (simp_all add: offlineMonitorTick_def OFFLINE_TIMEOUT_def WARNING_THRESHOLD_def Let_def)
qed

lemma secondOfflineEpisode_eq:
  "secondOfflineEpisode =
     quiz0\<lparr>connectionLost := True, offlineSince := Some 2000000,
           offlineElapsedSeconds := 240, offlineTimeoutWarning := True\<rparr>"
  by (simp add: secondOfflineEpisode_def connectionEffect_def offlineMonitorTick_def
      offlineMonitorInstalled_def quizRunning_def quiz0_def OFFLINE_TIMEOUT_def
      WARNING_THRESHOLD_def Let_def)

lemma practiceReconnected_eq:
  "practiceReconnected =
     quizPractice\<lparr>connectionLost := False, offlineSince := Some 1000000,
                  offlineElapsedSeconds := 240, offlineTimeoutWarning := True\<rparr>"
  by (simp add: practiceReconnected_def connectionEffect_def offlineMonitorTick_def
      offlineMonitorInstalled_def quizRunning_def quizPractice_def quiz0_def OFFLINE_TIMEOUT_def
      WARNING_THRESHOLD_def Let_def)

lemma practiceSecondEpisode_eq:
  "practiceSecondEpisode =
     quizPractice\<lparr>connectionLost := True, offlineSince := Some 2000000,
                  offlineElapsedSeconds := 240, offlineTimeoutWarning := True\<rparr>"
  by (simp add: practiceSecondEpisode_def practiceReconnected_eq connectionEffect_def
      quizRunning_def quizPractice_def quiz0_def)

text \<open>
  Claim C2 does not hold of the code beyond the first offline episode. Within one episode
  the lemmas above give what the claim says: a tick before 240 s changes only the displayed
  seconds, a tick from 240 s on raises the warning, a tick from 300 s on finishes the quiz
  whatever the question index. But nothing ever lowers \<open>offlineTimeoutWarning\<close>. After an
  episode that reached 240 s and a reconnect, the next episode starts with the warning
  raised: one second into it the quiz is running, offline, and the warning is shown. The
  same holds of a practice quiz, where no question timer runs during the online stretch
  between the two episodes.
\<close>

theorem warning_already_raised_in_second_episode:
  "quizRunning secondOfflineEpisode
   \<and> connectionLost secondOfflineEpisode
   \<and> offlineSince secondOfflineEpisode = Some 2000000
   \<and> offlineTimeoutWarning secondOfflineEpisode
   \<and> offlineElapsedSeconds (offlineMonitorTick 2001000 secondOfflineEpisode) = 1
   \<and> offlineTimeoutWarning (offlineMonitorTick 2001000 secondOfflineEpisode)
   \<and> \<not> quizFinished (offlineMonitorTick 2001000 secondOfflineEpisode)
   \<and> quizRunning practiceReconnected
   \<and> \<not> quizTimerInstalled practiceReconnected
   \<and> quizRunning practiceSecondEpisode
   \<and> connectionLost practiceSecondEpisode
   \<and> offlineSince practiceSecondEpisode = Some 2000000
   \<and> offlineTimeoutWarning practiceSecondEpisode
   \<and> offlineElapsedSeconds (offlineMonitorTick 2001000 practiceSecondEpisode) = 1
   \<and> offlineTimeoutWarning (offlineMonitorTick 2001000 practiceSecondEpisode)
   \<and> \<not> quizFinished (offlineMonitorTick 2001000 practiceSecondEpisode)"
  unfolding secondOfflineEpisode_eq practiceReconnected_eq practiceSecondEpisode_eq
  by (simp add: offlineMonitorTick_def offlineMonitorInstalled_def quizTimerInstalled_def
      quizRunning_def quizPractice_def quiz0_def OFFLINE_TIMEOUT_def WARNING_THRESHOLD_def Let_def)

section \<open>Sorting with a comparator that compares keys\<close>

lemma insert_sorted_insort_key:
  assumes "\<And>x y. cmp x y \<le> 0 \<longleftrightarrow> key x \<le> key y"
  shows "insert_sorted cmp x ys = insort_key key x ys"
  by (induction ys) (simp_all add: assms)

lemma array_sort_sort_key:
  assumes "\<And>x y. cmp x y \<le> 0 \<longleftrightarrow> key x \<le> (key y :: 'k :: linorder)"
  shows "array_sort cmp xs = sort_key key xs"
proof -
  have "insert_sorted cmp = insort_key key"
    by (intro ext) (rule insert_sorted_insort_key [OF assms])
  then show ?thesis by (simp add: array_sort_def sort_key_def)
qed

section \<open>The presence roster\<close>

lemma rosterCompare_key: "rosterCompare a b \<le> 0 \<longleftrightarrow> rosterKey a \<le> rosterKey b"
  by (simp add: rosterCompare_def rosterKey_def seenTime_def Let_def less_eq_prod_def)

lemma rosterKey_before: "rosterKey a \<le> rosterKey b \<longleftrightarrow> rosterBefore a b"
  by (auto simp add: rosterBefore_def rosterKey_def less_eq_prod_def)

lemma sortRoster_sort_key: "sortRoster users = sort_key rosterKey users"
  unfolding sortRoster_def by (rule array_sort_sort_key) (rule rosterCompare_key)

text \<open>
  Claim C6, as stated, fails: entries that tie on online state and last-seen time come out
  in snapshot order, not in username order, and a username that occurs twice in the
  snapshot occurs twice in the result.
\<close>

theorem roster_ties_and_duplicates_kept:
  "map username (sortRoster [bob, alice]) = [''bob'', ''alice'']
   \<and> map username (sortRoster [alice, alice]) = [''alice'', ''alice'']"
  by (simp add: sortRoster_def array_sort_def rosterCompare_def bob_def alice_def)

text \<open>
  Claim C6, amended. The displayed roster is computed from the new snapshot alone: it has
  exactly the snapshot's entries (each as often as the snapshot has it), ordered online
  first and then by last-seen time descending, a missing time counting as 0; entries with
  the same online state and time keep their snapshot order.
\<close>

theorem sortRoster_sorted_stable_permutation:
  "mset (sortRoster users) = mset users
   \<and> sorted_wrt rosterBefore (sortRoster users)
   \<and> (\<forall>k. filter (\<lambda>u. rosterKey u = k) (sortRoster users) = filter (\<lambda>u. rosterKey u = k) users)"
proof (intro conjI allI)
  show "mset (sortRoster users) = mset users"
    by (simp add: sortRoster_sort_key)
  have "sorted (map rosterKey (sortRoster users))"
    by (simp add: sortRoster_sort_key)
  then show "sorted_wrt rosterBefore (sortRoster users)"
    by (simp add: sorted_map rosterKey_before)
  show "filter (\<lambda>u. rosterKey u = k) (sortRoster users) = filter (\<lambda>u. rosterKey u = k) users" for k
    by (simp add: sortRoster_sort_key sort_key_stable)
qed

theorem sortRoster_sorted_stable_permutation_witness:
  "sortRoster [bob, carol, alice] = [carol, bob, alice]
   \<and> mset (sortRoster [bob, carol, alice]) = mset [bob, carol, alice]
   \<and> sorted_wrt rosterBefore (sortRoster [bob, carol, alice])"
proof -
  have "sortRoster [bob, carol, alice] = [carol, bob, alice]"
    by (simp add: sortRoster_def array_sort_def rosterCompare_def bob_def alice_def carol_def)
  with sortRoster_sorted_stable_permutation [of "[bob, carol, alice]"]
  show ?thesis by (intro conjI) simp_all
qed

section \<open>Merging message snapshots\<close>





























section \<open>The unread alert count\<close>

lemma marked_lookup:
  "foldl (\<lambda>m e. assignTrue m (event_id e)) m0 events i
     = (if i \<in> event_id ` set events \<and> i \<noteq> ''__proto__'' then Some True else m0 i)"
  by (induction events arbitrary: m0) (auto simp add: assignTrue_def)

lemma proto_inherited: "''__proto__'' \<in> set objectPrototypeKeys"
  by (simp add: objectPrototypeKeys_def)

lemma readsTruthy_marked:
  "readsTruthy (foldl (\<lambda>m e. assignTrue m (event_id e)) Map.empty events) k
     = (k \<in> event_id ` set events \<or> k \<in> set objectPrototypeKeys)"
proof (cases "k = ''__proto__''")
  case True
  then show ?thesis
    by (simp add: readsTruthy_def marked_lookup proto_inherited)
next
  case False
  then show ?thesis
    by (simp add: readsTruthy_def marked_lookup)
qed

lemma countUnread_filter:
  "countUnread events m = length (filter (\<lambda>e. \<not> readsTruthy m (event_id e)) events)"
proof -
  have "foldl (\<lambda>acc e. if readsTruthy m (event_id e) then acc else acc + 1) n events
          = n + length (filter (\<lambda>e. \<not> readsTruthy m (event_id e)) events)" for n :: nat
    by (induction events arbitrary: n) simp_all
  then show ?thesis by (simp add: countUnread_def)
qed

lemma unreadPresence_stored:
  assumes "session_role s = Admin" and "ls (''presence_read:'' @ session_username s) = Some (Parsed m)"
  shows "unreadPresence (Some s) (Some events) ls = countUnread events m"
  using assms by (simp add: unreadPresence_def)

lemma markAllRead_stored:
  "snd (markAllRead True (Some s) (p, ls)) (''presence_read:'' @ session_username s)
     = Some (Parsed (foldl (\<lambda>m e. assignTrue m (event_id e)) Map.empty (presenceEvents p)))"
  by (simp add: markAllRead_def persistLedger_def storageKey_def Let_def)

lemma markAllRead_readMap:
  "readMap (fst (markAllRead w so (p, ls)))
     = foldl (\<lambda>m e. assignTrue m (event_id e)) Map.empty (presenceEvents p)"
  by (simp add: markAllRead_def Let_def)

lemma toggleRead_stored:
  "snd (toggleRead True (Some s) i b (p, ls)) (''presence_read:'' @ session_username s)
     = Some (Parsed ((readMap p)(i \<mapsto> b)))"
  by (simp add: toggleRead_def persistLedger_def storageKey_def Let_def)

lemma unreadPresence_after_markAllRead:
  assumes "session_role s = Admin"
  shows "unreadPresence (Some s) (Some events) (snd (markAllRead True (Some s) (p, ls)))
           = length (filter (\<lambda>e. event_id e \<notin> event_id ` set (presenceEvents p)
                                  \<and> event_id e \<notin> set objectPrototypeKeys) events)"
proof -
  have "unreadPresence (Some s) (Some events) (snd (markAllRead True (Some s) (p, ls)))
          = countUnread events (foldl (\<lambda>m e. assignTrue m (event_id e)) Map.empty (presenceEvents p))"
    using assms markAllRead_stored [of s p ls] by (rule unreadPresence_stored)
  then show ?thesis
    by (simp add: countUnread_filter readsTruthy_marked)
qed

lemma shown20: "presenceEvents (loadEvents (Some feed21) page0) = take 20 feed21"
  by (simp add: loadEvents_def feed21_def array_sort_def compareNewestFirst_def event_def
      page0_def upto.simps)

lemma count_one_key:
  assumes "distinct (map f xs)" and "e \<in> set xs"
  shows "length (filter (\<lambda>x. f e = f x) xs) = 1"
proof -
  have "length (filter (\<lambda>x. f e = f x) xs) = length (filter (\<lambda>y. f e = y) (map f xs))"
    by (simp add: filter_map comp_def)
  also have "\<dots> = count (mset (map f xs)) (f e)"
    by (simp only: count_mset count_list_eq_length_filter)
  also have "\<dots> = 1"
  proof -
    from assms(2) have "f e \<in> set (map f xs)" by simp
    with assms(1) show ?thesis
      by (simp only: distinct_count_atmost_1 if_True)
  qed
  finally show ?thesis .
qed

lemma toggled_filter:
  "filter (\<lambda>x. \<not> readsTruthy
                   ((foldl (\<lambda>m e. assignTrue m (event_id e)) Map.empty events)(event_id e \<mapsto> False))
                   (event_id x)) events
          = filter (\<lambda>x. event_id e = event_id x) events"
proof (rule filter_cong [OF refl])
  fix x assume "x \<in> set events"
  then have i: "event_id x \<in> event_id ` set events" by (rule imageI)
  show "(\<not> readsTruthy
            ((foldl (\<lambda>m e. assignTrue m (event_id e)) Map.empty events)(event_id e \<mapsto> False))
            (event_id x)) = (event_id e = event_id x)"
  proof (cases "event_id e = event_id x")
    case True
    then show ?thesis by (simp add: readsTruthy_def)
  next
    case False
    then have "readsTruthy
            ((foldl (\<lambda>m e. assignTrue m (event_id e)) Map.empty events)(event_id e \<mapsto> False))
            (event_id x)
          = readsTruthy (foldl (\<lambda>m e. assignTrue m (event_id e)) Map.empty events) (event_id x)"
      by (simp add: readsTruthy_def)
    with False i show ?thesis by (simp add: readsTruthy_marked)
  qed
qed

lemma loadEvents_sort_key:
  "presenceEvents (loadEvents (Some events) p) = take 20 (sort_key (\<lambda>e. - timestamp e) events)"
proof -
  have "array_sort compareNewestFirst events = sort_key (\<lambda>e. - timestamp e) events"
    by (rule array_sort_sort_key) (simp add: compareNewestFirst_def)
  then show ?thesis by (simp add: loadEvents_def)
qed

lemma loadEvents_all_shown:
  assumes "length events \<le> 20"
  shows "set (presenceEvents (loadEvents (Some events) p)) = set events"
  using assms by (simp add: loadEvents_sort_key)

text \<open>
  For an admin, a feed of at most 20 events with unique ids none of which names an inherited
  property, and ledger writes that succeed, the count behaves as the specification says:
  it is the number of events while nothing is stored, 0 after the page has loaded the
  feed and marked all read, and 1 after one event is then toggled back to unread. For an
  empty feed it is 0 whatever is stored.
\<close>

lemma unread_count_within_window:
  assumes "session_role s = Admin" and "distinct (map event_id events)" and "length events \<le> 20"
    and "\<forall>e \<in> set events. event_id e \<notin> set objectPrototypeKeys"
  shows "unreadPresence (Some s) (Some events) Map.empty = length events"
    and "unreadPresence (Some s) (Some events)
            (snd (markAllRead True (Some s) (loadEvents (Some events) p, ls))) = 0"
    and "e \<in> set events \<Longrightarrow>
            unreadPresence (Some s) (Some events)
              (snd (toggleRead True (Some s) (event_id e) False
                     (markAllRead True (Some s) (loadEvents (Some events) p, ls)))) = 1"
    and "unreadPresence so (Some []) ls' = 0"
proof -
  have "filter (\<lambda>e. \<not> readsTruthy Map.empty (event_id e)) events = events"
    using assms(4) by (simp add: readsTruthy_def)
  then show "unreadPresence (Some s) (Some events) Map.empty = length events"
    using assms(1) by (simp add: unreadPresence_def countUnread_filter)
  show "unreadPresence (Some s) (Some events)
            (snd (markAllRead True (Some s) (loadEvents (Some events) p, ls))) = 0"
    by (simp add: unreadPresence_after_markAllRead [OF assms(1)] loadEvents_all_shown [OF assms(3)])
  show "unreadPresence so (Some []) ls' = 0"
    by (simp add: unreadPresence_def countUnread_def split: option.split StoredLedger.split)
  assume e: "e \<in> set events"
  let ?pl = "markAllRead True (Some s) (loadEvents (Some events) p, ls)"
  let ?marks = "foldl (\<lambda>m e. assignTrue m (event_id e)) Map.empty"
  have r: "readMap (fst ?pl) = ?marks (presenceEvents (loadEvents (Some events) p))"
    by (rule markAllRead_readMap)
  have st: "snd (toggleRead True (Some s) (event_id e) False ?pl) (''presence_read:'' @ session_username s)
          = Some (Parsed ((?marks (presenceEvents (loadEvents (Some events) p)))(event_id e \<mapsto> False)))"
    using toggleRead_stored [of s "event_id e" False "fst ?pl" "snd ?pl"] by (simp add: r)
  have m: "(?marks (presenceEvents (loadEvents (Some events) p))) = ?marks events"
    by (intro ext) (simp add: marked_lookup loadEvents_all_shown [OF assms(3)])
  have "unreadPresence (Some s) (Some events) (snd (toggleRead True (Some s) (event_id e) False ?pl))
          = countUnread events ((?marks events)(event_id e \<mapsto> False))"
    using assms(1) st unfolding m by (rule unreadPresence_stored)
  also have "\<dots> = length (filter (\<lambda>x. event_id e = event_id x) events)"
    by (simp only: countUnread_filter toggled_filter)
  also have "\<dots> = 1"
    using assms(2) e by (rule count_one_key)
  finally show "unreadPresence (Some s) (Some events)
              (snd (toggleRead True (Some s) (event_id e) False ?pl)) = 1" .
qed

lemma unread_count_two_events:
  "unreadPresence (Some adminSession) (Some feed2) Map.empty = 2
   \<and> unreadPresence (Some adminSession) (Some feed2) (snd (afterMarkAllRead feed2)) = 0
   \<and> unreadPresence (Some adminSession) (Some feed2)
        (snd (toggleRead True (Some adminSession) ''a'' False (afterMarkAllRead feed2))) = 1
   \<and> unreadPresence None (Some []) Map.empty = 0"
proof -
  have a: "session_role adminSession = Admin" by (simp add: adminSession_def)
  have d: "distinct (map event_id feed2)" by (simp add: feed2_def event_def)
  have l: "length feed2 \<le> 20" by (simp add: feed2_def)
  have o: "\<forall>e \<in> set feed2. event_id e \<notin> set objectPrototypeKeys"
    by (simp add: feed2_def event_def objectPrototypeKeys_def)
  have e: "event CHR ''a'' 2 \<in> set feed2" by (simp add: feed2_def)
  have i: "event_id (event CHR ''a'' 2) = ''a''" by (simp add: event_def)
  note th = unread_count_within_window [OF a d l o]
  have "unreadPresence (Some adminSession) (Some feed2) Map.empty = 2"
    using th(1) by (simp add: feed2_def)
  moreover have "unreadPresence (Some adminSession) (Some feed2) (snd (afterMarkAllRead feed2)) = 0"
    unfolding afterMarkAllRead_def by (rule th(2))
  moreover have "unreadPresence (Some adminSession) (Some feed2)
        (snd (toggleRead True (Some adminSession) ''a'' False (afterMarkAllRead feed2))) = 1"
    using th(3) [OF e, of page0 Map.empty] unfolding afterMarkAllRead_def by (simp only: i)
  moreover have "unreadPresence None (Some []) Map.empty = 0" by (rule th(4))
  ultimately show ?thesis by (intro conjI)
qed

text \<open>
  Claim C8 does not hold of the code. The notifications page keeps the 20 most recent
  events and "Mark all read" marks those, but the banner counts over everything the
  server returned: with 21 events the count is 21 before and 1 after marking all read,
  not 0. And the ledger is looked up as a plain object: an event whose id is the name of
  an inherited property reads as read although the ledger is empty, so a feed of two
  events, one of them with such an id, counts 1, not 2.
\<close>

theorem mark_all_read_leaves_unread_beyond_twenty:
  "length feed21 = 21
   \<and> length (presenceEvents (fst (afterMarkAllRead feed21))) = 20
   \<and> unreadPresence (Some adminSession) (Some feed21) Map.empty = 21
   \<and> unreadPresence (Some adminSession) (Some feed21) (snd (afterMarkAllRead feed21)) = 1
   \<and> length feedInherited = 2
   \<and> unreadPresence (Some adminSession) (Some feedInherited) Map.empty = 1"
proof (intro conjI)
  show "length feed21 = 21" by (simp add: feed21_def)
  show "length (presenceEvents (fst (afterMarkAllRead feed21))) = 20"
    by (simp add: afterMarkAllRead_def markAllRead_def Let_def shown20) (simp add: feed21_def)
  show "unreadPresence (Some adminSession) (Some feed21) Map.empty = 21"
    by (simp add: unreadPresence_def adminSession_def countUnread_filter readsTruthy_def
        objectPrototypeKeys_def)
       (simp add: feed21_def event_def upto.simps)
  have a: "session_role adminSession = Admin" by (simp add: adminSession_def)
  show "unreadPresence (Some adminSession) (Some feed21) (snd (afterMarkAllRead feed21)) = 1"
    unfolding afterMarkAllRead_def unreadPresence_after_markAllRead [OF a] shown20
    by (simp add: feed21_def event_def upto.simps objectPrototypeKeys_def)
  show "length feedInherited = 2" by (simp add: feedInherited_def)
  show "unreadPresence (Some adminSession) (Some feedInherited) Map.empty = 1"
    by (simp add: unreadPresence_def adminSession_def countUnread_def readsTruthy_def
        objectPrototypeKeys_def feedInherited_def event_def)
qed

section \<open>Binary64 rounding\<close>

text \<open>
  \<open>ilog2\<close> is the binary exponent of a positive rational, rounding to binary64 has relative
  error at most \<open>2\<^sup>-\<^sup>5\<^sup>3\<close>, and so the product \<^verbatim>\<open>(c / t) * 100\<close> of two counts is within
  \<open>300 / 2\<^sup>5\<^sup>3\<close> of the exact quotient. \<^verbatim>\<open>Math.round\<close> of it is therefore the integer nearest
  to \<open>100 c / t\<close> whenever that quotient is not exactly halfway between two integers; at
  an exact tie the rounding errors decide between the two neighbours.
\<close>

lemma pow2_powi: "pow2 e = 2 powi e"
  by (simp add: pow2_def power_int_def inverse_eq_divide power_one_over)

lemma pow2_pos: "0 < pow2 e"
  by (simp add: pow2_powi)

lemma pow2_add: "pow2 (a + b) = pow2 a * pow2 b"
  by (simp add: pow2_powi power_int_add)

lemma pow2_mono: "a \<le> b \<Longrightarrow> pow2 a \<le> pow2 b"
  by (simp add: pow2_powi power_int_increasing)

lemma bitlen_powi:
  assumes "0 < a"
  shows "(2::rat) powi (bitlen a - 1) \<le> of_int a" and "of_int a < (2::rat) powi (bitlen a)"
proof -
  from bitlen_bounds [OF assms] have l: "2 ^ nat (bitlen a - 1) \<le> a" and u: "a < 2 ^ nat (bitlen a)"
    by simp_all
  from assms have p: "1 \<le> bitlen a" by (auto simp: bitlen_alt_def)
  from l have "(of_int (2 ^ nat (bitlen a - 1)) :: rat) \<le> of_int a"
    by (simp only: of_int_le_iff)
  then show "(2::rat) powi (bitlen a - 1) \<le> of_int a"
    using p by (simp add: power_int_def)
  from u have "(of_int a :: rat) < of_int (2 ^ nat (bitlen a))"
    by (simp only: of_int_less_iff)
  then show "of_int a < (2::rat) powi (bitlen a)"
    using p by (simp add: power_int_def)
qed

lemma ilog2_bounds:
  assumes "0 < x"
  shows "pow2 (ilog2 x) \<le> x" and "x < pow2 (ilog2 x + 1)"
proof -
  obtain a b where q: "quotient_of x = (a, b)" by (cases "quotient_of x")
  from quotient_of_denom_pos [OF q] have b: "0 < b" .
  from quotient_of_div [OF q] have x: "x = of_int a / of_int b" .
  from assms b have a: "0 < a"
    unfolding x by (simp add: zero_less_divide_iff)
  define d where "d = bitlen a - bitlen b"
  have "x < 2 powi (bitlen a) / 2 powi (bitlen b - 1)"
    unfolding x using bitlen_powi [OF a] bitlen_powi [OF b] a b
    by (intro frac_less) (simp_all add: less_imp_le)
  also have "\<dots> = 2 powi (bitlen a - (bitlen b - 1))"
    by (rule power_int_diff [symmetric]) simp
  also have "bitlen a - (bitlen b - 1) = d + 1"
    by (simp add: d_def)
  finally have up: "x < pow2 (d + 1)" by (simp add: pow2_powi)
  have "2 powi (bitlen a - 1) / 2 powi (bitlen b) < x"
    unfolding x using bitlen_powi [OF a] bitlen_powi [OF b] a b
    by (intro frac_less2) (simp_all add: less_imp_le)
  moreover have "2 powi (bitlen a - 1) / 2 powi (bitlen b) = (2::rat) powi (bitlen a - 1 - bitlen b)"
    by (rule power_int_diff [symmetric]) simp
  moreover have "bitlen a - 1 - bitlen b = d - 1"
    by (simp add: d_def)
  ultimately have lo: "pow2 (d - 1) < x" by (simp add: pow2_powi)
  have i: "ilog2 x = (if pow2 d \<le> x then d else d - 1)"
    by (simp add: ilog2_def q d_def)
  show "pow2 (ilog2 x) \<le> x"
    using lo by (simp add: i less_imp_le)
  show "x < pow2 (ilog2 x + 1)"
    using up by (simp add: i not_le)
qed

lemma roundTiesToEven_err: "\<bar>of_int (roundTiesToEven y) - y\<bar> \<le> 1 / 2"
proof -
  have "of_int \<lfloor>y\<rfloor> \<le> y" and "y < of_int \<lfloor>y\<rfloor> + 1" by linarith+
  then show ?thesis
    by (auto simp add: roundTiesToEven_def Let_def abs_le_iff)
qed


lemma binary64_err:
  assumes "0 < x"
  shows "\<bar>binary64 x - x\<bar> \<le> x / 2 ^ 53"
proof -
  define e where "e = ilog2 x - 52"
  define y where "y = x / pow2 e"
  have pe: "0 < pow2 e" by (rule pow2_pos)
  have b: "binary64 x = of_int (roundTiesToEven y) * pow2 e"
    using assms by (simp add: binary64_def e_def y_def Let_def)
  have yx: "y * pow2 e = x"
    using pe by (simp add: y_def)
  have "binary64 x - x = (of_int (roundTiesToEven y) - y) * pow2 e"
    unfolding b by (simp add: left_diff_distrib yx)
  then have "\<bar>binary64 x - x\<bar> = \<bar>of_int (roundTiesToEven y) - y\<bar> * pow2 e"
    using pe by (simp add: abs_mult)
  also have "\<dots> \<le> 1 / 2 * pow2 e"
    using pe roundTiesToEven_err [of y] by (intro mult_right_mono) simp_all
  finally have 1: "\<bar>binary64 x - x\<bar> \<le> pow2 e / 2" by simp
  have "pow2 (ilog2 x) = pow2 (e + 52)" by (simp add: e_def)
  also have "\<dots> = pow2 e * 2 ^ 52" by (simp add: pow2_add) (simp add: pow2_def)
  finally have "pow2 e * 2 ^ 52 \<le> x"
    using ilog2_bounds(1) [OF assms] by simp
  then have "pow2 e / 2 \<le> x / 2 ^ 53" by simp
  with 1 show ?thesis by linarith
qed

lemma product_err:
  fixes c t :: nat
  assumes "0 < c" and "c \<le> t"
  shows "\<bar>js_mul (js_div (of_nat c) (of_nat t)) 100 - 100 * of_nat c / of_nat t\<bar> \<le> 300 / 2 ^ 53"
proof -
  define x :: rat where "x = of_nat c / of_nat t"
  define q where "q = binary64 x"
  define u :: rat where "u = 1 / 2 ^ 53"
  have u0: "0 < u" and u1: "u \<le> 1"
    by (simp_all add: u_def)
  have x0: "0 < x" and x1: "x \<le> 1"
    using assms by (simp_all add: x_def)
  have "\<bar>q - x\<bar> \<le> x / 2 ^ 53"
    unfolding q_def by (rule binary64_err [OF x0])
  then have eq: "\<bar>q - x\<bar> \<le> x * u"
    by (simp add: u_def)
  have "x * u \<le> 1 * u"
    using x1 u0 by (intro mult_right_mono) simp_all
  with eq have eq1: "\<bar>q - x\<bar> \<le> u" by simp
  have "x * u < x * 1"
    using x0 by (intro mult_strict_left_mono) (simp_all add: u_def)
  with eq have q0: "0 < q" by simp
  from eq1 x1 u1 have q2: "q \<le> 2" by linarith
  have "\<bar>binary64 (q * 100) - q * 100\<bar> \<le> q * 100 / 2 ^ 53"
    using q0 by (intro binary64_err) simp
  also have "\<dots> = q * (100 * u)"
    by (simp add: u_def)
  also have "\<dots> \<le> 2 * (100 * u)"
    using q2 u0 by (intro mult_right_mono) simp_all
  finally have e2: "\<bar>binary64 (q * 100) - q * 100\<bar> \<le> 200 * u" by simp
  from e2 eq1 have "\<bar>binary64 (q * 100) - x * 100\<bar> \<le> 300 * u" by linarith
  moreover have "js_mul (js_div (of_nat c) (of_nat t)) 100 = binary64 (q * 100)"
    by (simp add: js_mul_def js_div_def q_def x_def)
  moreover have "100 * of_nat c / of_nat t = x * 100"
    by (simp add: x_def)
  ultimately show ?thesis
    by (simp only: u_def)
qed

lemma percentage_nearest:
  fixes c t :: nat
  assumes "0 < t" and "c \<le> t" and "t < 2 ^ 32"
  defines "p \<equiv> Math_round (js_mul (js_div (of_nat c) (of_nat t)) 100)"
  defines "n \<equiv> (200 * int c + int t) div (2 * int t)"
  shows "n - 1 \<le> p \<and> p \<le> n"
    and "(200 * int c + int t) mod (2 * int t) \<noteq> 0 \<Longrightarrow> p = n"
proof -
  define N where "N = 200 * int c + int t"
  define D where "D = 2 * int t"
  define r where "r = N mod D"
  define Y where "Y = js_mul (js_div (of_nat c) (of_nat t)) 100"
  define X :: rat where "X = 100 * of_nat c / of_nat t"
  define eps :: rat where "eps = 300 / 2 ^ 53"
  define w :: rat where "w = 1 / of_int D"
  define f :: rat where "f = of_int r / of_int D"
  have D0: "0 < D" and D33: "D < 2 ^ 33"
    using assms(1,3) by (simp_all add: D_def)
  have r0: "0 \<le> r" and rD: "r < D"
    using D0 by (simp_all add: r_def)
  have N: "N = n * D + r"
    by (simp only: n_def r_def N_def D_def div_mult_mod_eq)
  have "X + 1 / 2 = of_int N / of_int D"
    using assms(1) by (simp add: X_def N_def D_def field_simps)
  also have "\<dots> = of_int n + f"
    using D0 by (simp add: N f_def field_simps)
  finally have X: "X + 1 / 2 = of_int n + f" .
  have err: "\<bar>Y - X\<bar> \<le> eps"
  proof (cases "c = 0")
    case True
    then show ?thesis by (simp add: Y_def X_def eps_def js_mul_def js_div_def binary64_def)
  next
    case False
    then have "0 < c" by simp
    from product_err [OF this assms(2)] show ?thesis by (simp add: Y_def X_def eps_def)
  qed
  have eps: "eps < w"
  proof -
    have "300 * D < 2 ^ 53" using D33 by simp
    then have "(of_int (300 * D) :: rat) < of_int (2 ^ 53)" by (simp only: of_int_less_iff)
    then have "300 * (of_int D :: rat) < 2 ^ 53" by simp
    with D0 show ?thesis by (simp add: eps_def w_def field_simps)
  qed
  have w1: "w \<le> 1"
    using D0 by (simp add: w_def)
  have frac_hi: "f \<le> 1 - w"
  proof -
    from rD have "r \<le> D - 1" by simp
    then have "(of_int r :: rat) \<le> of_int (D - 1)" by (simp only: of_int_le_iff)
    with D0 show ?thesis by (simp add: f_def w_def field_simps)
  qed
  have frac_lo: "0 \<le> f"
    using r0 D0 by (simp add: f_def)
  have p: "p = \<lfloor>Y + 1 / 2\<rfloor>"
    by (simp add: p_def Math_round_def Y_def)
  have up: "Y + 1 / 2 < of_int n + 1"
    using err X eps frac_hi by linarith
  have lo1: "of_int n - 1 \<le> Y + 1 / 2"
    using err X eps frac_lo w1 by linarith
  from up have "Y + 1 / 2 < of_int (n + 1)" by simp
  then have "\<lfloor>Y + 1 / 2\<rfloor> < n + 1" by (simp only: floor_less_iff)
  moreover from lo1 have "of_int (n - 1) \<le> Y + 1 / 2" by simp
  then have "n - 1 \<le> \<lfloor>Y + 1 / 2\<rfloor>" by (simp only: le_floor_iff)
  ultimately show "n - 1 \<le> p \<and> p \<le> n" by (simp add: p)
  assume "(200 * int c + int t) mod (2 * int t) \<noteq> 0"
  then have "r \<noteq> 0" by (simp add: r_def N_def D_def)
  with r0 have "1 \<le> r" by simp
  then have "(of_int 1 :: rat) \<le> of_int r" by (simp only: of_int_le_iff)
  with D0 have "w \<le> f"
    by (simp add: divide_right_mono w_def f_def)
  with err X eps have "of_int n \<le> Y + 1 / 2" by linarith
  with up have "\<lfloor>Y + 1 / 2\<rfloor> = n" by (intro floor_unique) simp_all
  then show "p = n" by (simp add: p)
qed

lemma tie_rounds_either_way:
  "Math_round (js_mul (js_div 1 8) 100) = 13 \<and> Math_round (js_mul (js_div 29 200) 100) = 14"
  by code_simp

section \<open>The score\<close>

lemma countCorrect_filter:
  "countCorrect qs answers = length (filter (\<lambda>q. answers (number q) = Some (correct_answer q)) qs)"
proof -
  have "foldl (\<lambda>correctCount q. if answers (number q) = Some (correct_answer q)
                              then correctCount + 1 else correctCount) n qs
          = n + length (filter (\<lambda>q. answers (number q) = Some (correct_answer q)) qs)" for n :: nat
    by (induction qs arbitrary: n) simp_all
  then show ?thesis by (simp add: countCorrect_def)
qed

lemma one_of_five: "Math_round (js_mul (js_div 1 5) 100) = 20"
  by code_simp

lemma length_shuffle_from: "length (shuffle_from rnd k xs) = length xs"
  by (induction k arbitrary: xs) (simp_all add: Let_def)

lemma mset_shuffle_from: "k < length xs \<Longrightarrow> mset (shuffle_from rnd k xs) = mset xs"
proof (induction k arbitrary: xs)
  case 0
  then show ?case by simp
next
  case (Suc k)
  let ?j = "rnd (Suc k) mod (Suc k + 1)"
  let ?ys = "xs[Suc k := xs ! ?j, ?j := xs ! Suc k]"
  have j: "?j < length xs"
    using Suc.prems by (simp add: less_Suc_eq_le mod_less_divisor order_le_less_trans [OF _ Suc.prems])
  have "mset ?ys = mset xs"
    using j Suc.prems by (rule mset_swap)
  moreover have "k < length ?ys"
    using Suc.prems by simp
  ultimately show ?case
    using Suc.IH [of ?ys] by (simp add: Let_def)
qed

lemma mset_shuffleArray: "mset (shuffleArray rnd xs) = mset xs"
proof (cases xs)
  case Nil
  then show ?thesis by (simp add: shuffleArray_def)
next
  case (Cons y ys)
  then have "length xs - 1 < length xs" by simp
  then show ?thesis unfolding shuffleArray_def by (rule mset_shuffle_from)
qed

lemma questions_after_start:
  "mset (questions (startQuizWithDifficulty rnd difficulty customTime v)) = mset (loadedQuestions v)"
proof (cases "loadedQuestions v")
  case Nil
  then show ?thesis
    by (simp add: questions_def startQuizWithDifficulty_def shuffleArray_def)
next
  case (Cons q qs)
  have "length (shuffleArray rnd (loadedQuestions v)) = length (loadedQuestions v)"
    by (simp add: shuffleArray_def length_shuffle_from)
  with Cons have "questions (startQuizWithDifficulty rnd difficulty customTime v)
                    = shuffleArray rnd (loadedQuestions v)"
    by (simp add: questions_def startQuizWithDifficulty_def)
  then show ?thesis by (simp add: mset_shuffleArray)
qed

lemma disjoint_filters:
  assumes "\<And>x. \<not> (P x \<and> Q x)"
  shows "length (filter P xs) + length (filter Q xs) \<le> length xs"
  using assms by (induction xs) auto

text \<open>
  The specification's percentage as a quotient of integers, and the sessions whose exact
  percentage lies halfway between two integers.
\<close>

lemma roundedPercentage_div:
  assumes "0 < t"
  shows "roundedPercentage c t = (200 * int c + int t) div (2 * int t)"
proof -
  have "of_nat c / of_nat t * 100 + 1 / 2 = (of_int (200 * int c + int t) / of_int (2 * int t) :: rat)"
    using assms by (simp add: field_simps)
  then have "roundedPercentage c t = \<lfloor>of_int (200 * int c + int t) / of_int (2 * int t) :: rat\<rfloor>"
    by (simp only: roundedPercentage_def round_def)
  then show ?thesis by (simp only: floor_divide_of_int_eq)
qed

lemma halfway_iff:
  assumes "0 < t"
  shows "(frac (of_nat c / of_nat t * 100 :: rat) = 1 / 2)
           = ((200 * int c + int t) mod (2 * int t) = 0)"
proof -
  define x :: rat where "x = of_nat c / of_nat t * 100"
  define N where "N = 200 * int c + int t"
  define D where "D = 2 * int t"
  have D0: "D \<noteq> 0" using assms by (simp add: D_def)
  have q: "x + 1 / 2 = of_int N / of_int D"
    using assms by (simp add: x_def N_def D_def field_simps)
  show ?thesis
  proof
    assume "frac (of_nat c / of_nat t * 100 :: rat) = 1 / 2"
    then have "x = of_int \<lfloor>x\<rfloor> + 1 / 2" by (simp add: frac_def x_def)
    then have "x + 1 / 2 = of_int (\<lfloor>x\<rfloor> + 1)" by simp
    with q have "of_int N / of_int D = (of_int (\<lfloor>x\<rfloor> + 1) :: rat)" by simp
    then have "(of_int N :: rat) = of_int ((\<lfloor>x\<rfloor> + 1) * D)"
      using D0 by (simp add: field_simps)
    then have "N = (\<lfloor>x\<rfloor> + 1) * D" by (simp only: of_int_eq_iff)
    then have "N mod D = 0" by simp
    then show "(200 * int c + int t) mod (2 * int t) = 0" by (simp only: N_def D_def)
  next
    assume "(200 * int c + int t) mod (2 * int t) = 0"
    then have "N mod D = 0" by (simp only: N_def D_def)
    then obtain k where k: "N = D * k" by auto
    have "of_int N / of_int D = (of_int k :: rat)"
      using D0 by (simp add: k)
    with q have "x = of_int (k - 1) + 1 / 2" by simp
    then have "x - 1 / 2 = of_int (k - 1)" by simp
    then have "x - 1 / 2 \<in> \<int>" by (simp only: Ints_of_int)
    then have "x - 1 / 2 \<in> \<int> \<and> (0::rat) \<le> 1 / 2 \<and> (1::rat) / 2 < 1" by simp
    then have "frac x = 1 / 2" by (simp only: frac_unique_iff)
    then show "frac (of_nat c / of_nat t * 100 :: rat) = 1 / 2" by (simp only: x_def)
  qed
qed

lemma tie_23_of_40: "Math_round (js_mul (js_div 23 40) 100) = 57"
  by code_simp

lemma questions_quiz40: "questions quiz40 = rev (map question40 [1..<41])"
  by (simp add: questions_def quiz40_def)

lemma correct_quiz40: "countCorrect (questions quiz40) (selectedAnswers quiz40) = 23"
proof -
  let ?P = "\<lambda>i. 1 \<le> int i \<and> int i \<le> 23"
  have s: "[1..<41] = [1..<24] @ [24..<41]"
    using upt_add_eq_append [of 1 24 17] by simp
  have a: "filter ?P [1..<24] = [1..<24]" by (rule filter_True) auto
  have b: "filter ?P [24..<41] = []" by (rule filter_False) auto
  have "countCorrect (questions quiz40) (selectedAnswers quiz40)
          = length (filter (\<lambda>q. selectedAnswers quiz40 (number q) = Some (correct_answer q))
                      (map question40 [1..<41]))"
    by (simp only: countCorrect_filter questions_quiz40 rev_filter [symmetric] length_rev)
  also have "\<dots> = length (filter ?P [1..<41])"
    by (simp add: filter_map comp_def question40_def quiz40_def)
  also have "\<dots> = 23"
    by (simp only: s filter_append a b) simp
  finally show ?thesis .
qed

text \<open>
  Claim C5, as stated, fails where the exact percentage lies halfway between two integers:
  with 23 of 40 questions answered correctly the exact percentage is 57.5 and
  \<open>round(correct / total * 100)\<close> is 58, but the code's binary64 quotient \<^verbatim>\<open>23 / 40\<close> times
  100 lies just below 57.5 and \<^verbatim>\<open>Math.round\<close> gives 57.
\<close>

theorem halfway_percentage_rounded_down:
  "correct (calculateScore quiz40) = 23
   \<and> total (calculateScore quiz40) = 40
   \<and> roundedPercentage 23 40 = 58
   \<and> percentage (calculateScore quiz40) = Some 57"
proof -
  have l: "length (questions quiz40) = 40" by (simp add: questions_quiz40)
  have r: "roundedPercentage 23 40 = 58" by (simp add: roundedPercentage_div)
  from l have ne: "questions quiz40 \<noteq> []" by auto
  show ?thesis
    by (simp add: calculateScore_def Let_def correct_quiz40 l ne r tie_23_of_40)
qed

text \<open>
  Claim C5, amended. The score of a session is taken over the whole list of rendered
  questions, which after starting a quiz is a permutation of all questions of the card:
  \<open>correct\<close> is the number of questions whose selected answer equals the correct answer,
  \<open>total\<close> the number of questions, so a question without a selected answer counts as
  incorrect. The percentage is \<^verbatim>\<open>Math.round((correct / total) * 100)\<close> in binary64 arithmetic.
  For a session with questions (fewer than \<open>2^32\<close>) it is \<open>round(correct / total * 100)\<close> or
  one less, and it is \<open>round(correct / total * 100)\<close> whenever the exact percentage is not
  halfway between two integers; one correct answer out of five gives 20.
\<close>

theorem score_counts_every_question:
  "correct (calculateScore v)
     = length (filter (\<lambda>q. selectedAnswers v (number q) = Some (correct_answer q)) (questions v))
   \<and> total (calculateScore v) = length (questions v)
   \<and> correct (calculateScore v)
       + length (filter (\<lambda>q. selectedAnswers v (number q) = None) (questions v))
       \<le> total (calculateScore v)
   \<and> (questions v \<noteq> [] \<longrightarrow>
        percentage (calculateScore v)
          = Some (Math_round (js_mul (js_div (of_nat (correct (calculateScore v)))
                                             (of_nat (total (calculateScore v)))) 100)))
   \<and> (questions v \<noteq> [] \<and> length (questions v) < 2 ^ 32 \<longrightarrow>
        percentage (calculateScore v)
          = Some (roundedPercentage (correct (calculateScore v)) (total (calculateScore v)))
        \<or> percentage (calculateScore v)
          = Some (roundedPercentage (correct (calculateScore v)) (total (calculateScore v)) - 1))
   \<and> (questions v \<noteq> [] \<and> length (questions v) < 2 ^ 32
        \<and> frac (of_nat (correct (calculateScore v)) / of_nat (total (calculateScore v)) * 100 :: rat)
              \<noteq> 1 / 2 \<longrightarrow>
        percentage (calculateScore v)
          = Some (roundedPercentage (correct (calculateScore v)) (total (calculateScore v))))
   \<and> (correct (calculateScore v) = 1 \<and> total (calculateScore v) = 5 \<longrightarrow>
        percentage (calculateScore v) = Some 20)
   \<and> mset (questions (startQuizWithDifficulty rnd difficulty customTime v)) = mset (loadedQuestions v)"
proof -
  let ?c = "countCorrect (questions v) (selectedAnswers v)"
  let ?t = "length (questions v)"
  let ?p = "Math_round (js_mul (js_div (of_nat ?c) (of_nat ?t)) 100)"
  have c': "correct (calculateScore v) = ?c" and t: "total (calculateScore v) = ?t"
    by (simp_all add: calculateScore_def Let_def)
  have c: "correct (calculateScore v)
     = length (filter (\<lambda>q. selectedAnswers v (number q) = Some (correct_answer q)) (questions v))"
    by (simp add: calculateScore_def Let_def countCorrect_filter)
  have ct: "?c \<le> ?t"
    by (simp add: countCorrect_filter)
  have p: "percentage (calculateScore v) = Some ?p" if "questions v \<noteq> []"
    using that by (simp add: calculateScore_def Let_def)
  have u: "correct (calculateScore v)
       + length (filter (\<lambda>q. selectedAnswers v (number q) = None) (questions v))
       \<le> total (calculateScore v)"
  proof -
    have "length (filter (\<lambda>q. selectedAnswers v (number q) = Some (correct_answer q)) (questions v))
          + length (filter (\<lambda>q. selectedAnswers v (number q) = None) (questions v))
        \<le> length (questions v)"
      by (rule disjoint_filters) simp
    then show ?thesis by (simp only: c t)
  qed
  have near: "percentage (calculateScore v)
          = Some (roundedPercentage (correct (calculateScore v)) (total (calculateScore v)))
        \<or> percentage (calculateScore v)
          = Some (roundedPercentage (correct (calculateScore v)) (total (calculateScore v)) - 1)"
    if a: "questions v \<noteq> [] \<and> length (questions v) < 2 ^ 32"
  proof -
    from a have t0: "0 < ?t" and t32: "?t < 2 ^ 32" by simp_all
    from percentage_nearest(1) [OF t0 ct t32]
    have "roundedPercentage ?c ?t - 1 \<le> ?p \<and> ?p \<le> roundedPercentage ?c ?t"
      by (simp only: roundedPercentage_div [OF t0])
    then have "?p = roundedPercentage ?c ?t \<or> ?p = roundedPercentage ?c ?t - 1"
      by arith
    moreover from a have "percentage (calculateScore v) = Some ?p" by (simp add: p)
    ultimately show ?thesis by (simp only: c' t option.inject)
  qed
  have exact: "percentage (calculateScore v)
          = Some (roundedPercentage (correct (calculateScore v)) (total (calculateScore v)))"
    if a: "questions v \<noteq> [] \<and> length (questions v) < 2 ^ 32
        \<and> frac (of_nat (correct (calculateScore v)) / of_nat (total (calculateScore v)) * 100 :: rat)
              \<noteq> 1 / 2"
  proof -
    from a have t0: "0 < ?t" and t32: "?t < 2 ^ 32" by simp_all
    from a have "frac (of_nat ?c / of_nat ?t * 100 :: rat) \<noteq> 1 / 2"
      unfolding c' t by (elim conjE)
    then have "(200 * int ?c + int ?t) mod (2 * int ?t) \<noteq> 0"
      by (simp only: halfway_iff [OF t0] not_False_eq_True)
    from percentage_nearest(2) [OF t0 ct t32 this]
    have "?p = roundedPercentage ?c ?t"
      by (simp only: roundedPercentage_div [OF t0])
    moreover from a have "percentage (calculateScore v) = Some ?p" by (simp add: p)
    ultimately show ?thesis by (simp only: c' t)
  qed
  have five: "percentage (calculateScore v) = Some 20"
    if a: "correct (calculateScore v) = 1 \<and> total (calculateScore v) = 5"
  proof -
    from a have n: "?c = 1" and l: "?t = 5"
      by (simp_all add: calculateScore_def Let_def)
    from l have "questions v \<noteq> []" by auto
    with n l show ?thesis
      by (simp add: calculateScore_def Let_def one_of_five)
  qed
  have perm: "mset (questions (startQuizWithDifficulty rnd difficulty customTime v))
                = mset (loadedQuestions v)"
    by (rule questions_after_start)
  from p have p': "questions v \<noteq> [] \<longrightarrow>
        percentage (calculateScore v)
          = Some (Math_round (js_mul (js_div (of_nat (correct (calculateScore v)))
                                             (of_nat (total (calculateScore v)))) 100))"
    by (simp only: c' t) blast
  show ?thesis
    by (intro conjI impI) (fact c t u perm | rule p' [rule_format] near exact five, assumption)+
qed

theorem score_counts_every_question_witness:
  "questions quizSubmitted \<noteq> [] \<and> length (questions quizSubmitted) < 2 ^ 32
   \<and> frac (of_nat (correct (calculateScore quizSubmitted))
             / of_nat (total (calculateScore quizSubmitted)) * 100 :: rat) \<noteq> 1 / 2
   \<and> roundedPercentage 1 5 = 20
   \<and> calculateScore quizSubmitted = \<lparr>correct = 1, total = 5, percentage = Some 20\<rparr>"
proof -
  have q: "questions quizSubmitted = [q3, q1, q5, q2, q4]"
    by (simp add: questions_def quizSubmitted_def quiz0_def)
  have c: "correct (calculateScore quizSubmitted) = 1"
    by (simp add: calculateScore_def Let_def q countCorrect_def)
       (simp add: quizSubmitted_def quiz0_def q1_def q2_def q3_def q4_def q5_def)
  have t: "total (calculateScore quizSubmitted) = 5"
    by (simp add: calculateScore_def Let_def q)
  have ne: "questions quizSubmitted \<noteq> []" and l: "length (questions quizSubmitted) < 2 ^ 32"
    by (simp_all add: q)
  have "((200 * int 1 + int 5) mod (2 * int 5) = 0) = False" by simp
  then have "frac (of_nat 1 / of_nat 5 * 100 :: rat) \<noteq> 1 / 2"
    by (simp only: halfway_iff [of 5 1] zero_less_numeral not_False_eq_True)
  then have f: "frac (of_nat (correct (calculateScore quizSubmitted))
             / of_nat (total (calculateScore quizSubmitted)) * 100 :: rat) \<noteq> 1 / 2"
    by (simp only: c t not_False_eq_True)
  have r: "roundedPercentage 1 5 = 20"
    by (simp add: roundedPercentage_div)
  from score_counts_every_question [of quizSubmitted] ne l f
  have "percentage (calculateScore quizSubmitted)
          = Some (roundedPercentage (correct (calculateScore quizSubmitted))
                    (total (calculateScore quizSubmitted)))"
    by blast
  then have "percentage (calculateScore quizSubmitted) = Some 20"
    by (simp only: c t r)
  with c t have "calculateScore quizSubmitted = \<lparr>correct = 1, total = 5, percentage = Some 20\<rparr>"
    by (cases "calculateScore quizSubmitted") simp
  with ne l f r show ?thesis by (intro conjI)
qed

end
